theory Spec2Isabelle
  imports Main "HOL-Library.Product_Lexorder" "HOL-Library.List_Lexorder" "HOL-Library.Multiset"
begin

section \<open>Results and exceptions\<close>

text \<open>
  The repository returns values of its own \<open>Result\<close> class (\<open>Common/result.py\<close>): either
  \<open>ok(v)\<close> or \<open>error(msg)\<close>. Besides that, Python code can raise. Both are values here:
  \<open>Ok v\<close> is \<open>ok(v)\<close>, \<open>Error e\<close> is \<open>error(msg)\<close> with the message site \<open>e\<close>, and
  \<open>Raised x\<close> is the exception \<open>x\<close> leaving the function. The decorator
  \<open>validate_types\<close> only acts when the environment variable \<open>IS_TYPE_CHECKING\<close> is set
  and is the identity otherwise; it is modelled as the identity.
\<close>

datatype exn = ValueError | KeyError | AssertionError | ResultMisuseException
  | StopIteration | AttributeError | TypeError

type_synonym PortID = nat

datatype ColorString = White | Black | Red | Green | Blue

datatype BoardPosition = BoardPosition (pos_x: int) (pos_y: int)

datatype err =
    PlayerAlreadyOnBoard ColorString
  | TileAlreadyAtPosition BoardPosition
  | NotOnEdge BoardPosition
  | SurroundingNotEmpty BoardPosition
  | PortNotFacingInterior BoardPosition PortID
  | PlayerNotAlive ColorString
  | PlayerNotOnBoard ColorString
  | NotALivePlayer ColorString
  | CouldNotMatchPort PortID
  | CannotPlaceTile ColorString err
  | WouldGoOffEdge ColorString
  | OnTopOfExistingTile ColorString
  | FailedToMovePlayer ColorString err
  | WrongTileCount nat nat
  | TileNotInChoices
  | NotALivePlayerForSuicide ColorString
  | LoopyMove "(PortID \<times> PortID) list"
  | SuicidalMove "(PortID \<times> PortID) list"
  | PlayersAlreadySet
  | WrongPlayerCount nat
  | DuplicatePlayers
  | MustAddPlayers
  | MustAddRuleChecker
  | MustAddTileIterator
  | PlayerError

datatype 'a outcome = Ok 'a | Error err | Raised exn

fun is_error :: "'a outcome \<Rightarrow> bool" where
  "is_error (Error e) = True"
| "is_error _ = False"

section \<open>Tiles and ports (Common/tiles.py)\<close>

abbreviation (input) TopLeft :: PortID where "TopLeft \<equiv> 0"
abbreviation (input) TopRight :: PortID where "TopRight \<equiv> 1"
abbreviation (input) RightTop :: PortID where "RightTop \<equiv> 2"
abbreviation (input) RightBottom :: PortID where "RightBottom \<equiv> 3"
abbreviation (input) BottomRight :: PortID where "BottomRight \<equiv> 4"
abbreviation (input) BottomLeft :: PortID where "BottomLeft \<equiv> 5"
abbreviation (input) LeftBottom :: PortID where "LeftBottom \<equiv> 6"
abbreviation (input) LeftTop :: PortID where "LeftTop \<equiv> 7"

definition Port_all :: "PortID list" where
  "Port_all = [TopLeft, TopRight, RightTop, RightBottom, BottomRight, BottomLeft,
     LeftBottom, LeftTop]"

text \<open>\<open>Port.get_adjoining_port\<close>; \<open>None\<close> is the \<open>ValueError\<close> of the last line.\<close>

definition get_adjoining_port :: "PortID \<Rightarrow> PortID option" where
  "get_adjoining_port port =
     (if port = TopLeft then Some BottomLeft
      else if port = TopRight then Some BottomRight
      else if port = RightTop then Some LeftTop
      else if port = RightBottom then Some LeftBottom
      else if port = LeftBottom then Some RightBottom
      else if port = LeftTop then Some RightTop
      else if port = BottomLeft then Some TopLeft
      else if port = BottomRight then Some TopRight
      else None)"

text \<open>
  A \<open>Tile\<close> object has the single field \<open>edges\<close>, so a tile is its edge list. The
  constructor asserts that there are four edges covering the ports 0..7 and stores every edge
  as (smaller, larger), sorted; \<open>None\<close> is the \<open>AssertionError\<close>.
\<close>

type_synonym tile = "(PortID \<times> PortID) list"

definition flatten :: "('a \<times> 'a) list \<Rightarrow> 'a list" where
  "flatten nested = concat (map (\<lambda>(a, b). [a, b]) nested)"

definition normalize_edges :: "(PortID \<times> PortID) list \<Rightarrow> tile" where
  "normalize_edges es = sort (map (\<lambda>(a, b). (min a b, max a b)) es)"

definition Tile_init :: "(PortID \<times> PortID) list \<Rightarrow> tile option" where
  "Tile_init es =
     (if length es = 4 \<and> sort (flatten es) = [0, 1, 2, 3, 4, 5, 6, 7]
      then Some (normalize_edges es) else None)"

text \<open>A tile value is valid when it is what the constructor produces.\<close>

definition valid_tile :: "tile \<Rightarrow> bool" where
  "valid_tile t \<longleftrightarrow> Tile_init t = Some t"

definition rotate_tile :: "tile \<Rightarrow> tile option" where
  "rotate_tile t = Tile_init (map (\<lambda>(port1, port2). ((port1 + 2) mod 8, (port2 + 2) mod 8)) t)"

definition all_rotations :: "tile \<Rightarrow> tile list option" where
  "all_rotations t =
     (case rotate_tile t of None \<Rightarrow> None | Some t1 \<Rightarrow>
     (case rotate_tile t1 of None \<Rightarrow> None | Some t2 \<Rightarrow>
     (case rotate_tile t2 of None \<Rightarrow> None | Some t3 \<Rightarrow>
     (case rotate_tile t3 of None \<Rightarrow> None | Some t4 \<Rightarrow> Some [t, t1, t2, t3]))))"

text \<open>\<open>Tile.get_port_connected_to\<close>; \<open>None\<close> is the \<open>ValueError\<close> after the loop.\<close>

fun get_port_connected_to :: "tile \<Rightarrow> PortID \<Rightarrow> PortID option" where
  "get_port_connected_to [] port = None"
| "get_port_connected_to ((port1, port2) # es) port =
     (if port1 = port then Some port2
      else if port2 = port then Some port1
      else get_port_connected_to es port)"

text \<open>
  \<open>Tile._to_key\<close> is \<open>str\<close> of the sorted list of the four rotations' edge lists. \<open>str\<close> is
  injective on nested lists of integer pairs, so the key is modelled as the sorted list
  itself. \<open>Tile.__eq__\<close> compares keys.
\<close>

definition to_key :: "tile \<Rightarrow> tile list option" where
  "to_key t =
     (case rotate_tile t of None \<Rightarrow> None | Some t1 \<Rightarrow>
     (case rotate_tile t1 of None \<Rightarrow> None | Some t2 \<Rightarrow>
     (case rotate_tile t2 of None \<Rightarrow> None | Some t3 \<Rightarrow> Some (sort [t, t1, t2, t3]))))"

definition tile_eq :: "tile \<Rightarrow> tile \<Rightarrow> bool option" where
  "tile_eq t u =
     (case to_key t of None \<Rightarrow> None | Some k1 \<Rightarrow>
     (case to_key u of None \<Rightarrow> None | Some k2 \<Rightarrow> Some (k1 = k2)))"

text \<open>
  Auxiliary functions for reasoning about rotation: the port shift of one edge, the
  (smaller, larger) form of one edge, and rotation without the constructor's assertions.
\<close>

definition shift_edge :: "PortID \<times> PortID \<Rightarrow> PortID \<times> PortID" where
  "shift_edge e = ((fst e + 2) mod 8, (snd e + 2) mod 8)"

definition order_edge :: "PortID \<times> PortID \<Rightarrow> PortID \<times> PortID" where
  "order_edge e = (min (fst e) (snd e), max (fst e) (snd e))"

definition rot :: "tile \<Rightarrow> tile" where
  "rot t = normalize_edges (map shift_edge t)"

section \<open>Board positions (Common/board_position.py)\<close>

abbreviation (input) MIN_BOARD_COORDINATE :: int where "MIN_BOARD_COORDINATE \<equiv> 0"
abbreviation (input) MAX_BOARD_COORDINATE :: int where "MAX_BOARD_COORDINATE \<equiv> 9"

text \<open>The constructor of \<open>BoardPosition\<close>; \<open>None\<close> is its \<open>ValueError\<close>.\<close>

definition BoardPosition_init :: "int \<Rightarrow> int \<Rightarrow> BoardPosition option" where
  "BoardPosition_init x y =
     (if \<not> (MIN_BOARD_COORDINATE \<le> x \<and> x \<le> 9 \<and> MIN_BOARD_COORDINATE \<le> y \<and> y \<le> 9)
      then None else Some (BoardPosition x y))"

definition valid_pos :: "BoardPosition \<Rightarrow> bool" where
  "valid_pos p \<longleftrightarrow> BoardPosition_init (pos_x p) (pos_y p) = Some p"

definition is_corner :: "BoardPosition \<Rightarrow> bool" where
  "is_corner p \<longleftrightarrow>
     (pos_x p = MIN_BOARD_COORDINATE
        \<and> (pos_y p = MIN_BOARD_COORDINATE \<or> pos_y p = MAX_BOARD_COORDINATE))
     \<or> (pos_x p = MAX_BOARD_COORDINATE
        \<and> (pos_y p = MIN_BOARD_COORDINATE \<or> pos_y p = MAX_BOARD_COORDINATE))"

definition is_edge :: "BoardPosition \<Rightarrow> bool" where
  "is_edge p \<longleftrightarrow>
     pos_x p \<in> set [MIN_BOARD_COORDINATE, MAX_BOARD_COORDINATE]
     \<or> pos_y p \<in> set [MIN_BOARD_COORDINATE, MAX_BOARD_COORDINATE]"

section \<open>Board states (Common/board_state.py)\<close>

text \<open>
  A \<open>BoardState\<close> holds two persistent maps (pyrsistent \<open>PMap\<close>): position to tile and
  colour to (position, port). A \<open>PMap\<close> is immutable, so it is a HOL map.
\<close>

record BoardState =
  board :: "BoardPosition \<rightharpoonup> tile"
  live_players :: "ColorString \<rightharpoonup> BoardPosition \<times> PortID"

definition BoardState_init :: BoardState where
  "BoardState_init = \<lparr>board = Map.empty, live_players = Map.empty\<rparr>"

definition get_tile :: "BoardState \<Rightarrow> BoardPosition \<Rightarrow> tile option" where
  "get_tile s p = board s p"

definition get_position_of_player ::
  "BoardState \<Rightarrow> ColorString \<Rightarrow> (BoardPosition \<times> PortID) outcome" where
  "get_position_of_player s player =
     (case live_players s player of
        Some pp \<Rightarrow> Ok pp
      | None \<Rightarrow> Error (PlayerNotOnBoard player))"

definition new_position :: "int \<Rightarrow> int \<Rightarrow> BoardPosition option outcome" where
  "new_position x y =
     (case BoardPosition_init x y of None \<Rightarrow> Raised ValueError | Some p \<Rightarrow> Ok (Some p))"

definition calculate_adjacent_position_of_player ::
  "BoardState \<Rightarrow> ColorString \<Rightarrow> BoardPosition option outcome" where
  "calculate_adjacent_position_of_player s player =
     (if live_players s player = None then Error (NotALivePlayer player)
      else (case get_position_of_player s player of
        Error e \<Rightarrow> Error e
      | Raised x \<Rightarrow> Raised x
      | Ok (current_pos, current_port) \<Rightarrow>
          if current_port \<in> set [TopLeft, TopRight] then
            (if pos_y current_pos - 1 \<ge> 0
             then new_position (pos_x current_pos) (pos_y current_pos - 1) else Ok None)
          else if current_port \<in> set [RightTop, RightBottom] then
            (if pos_x current_pos + 1 \<le> MAX_BOARD_COORDINATE
             then new_position (pos_x current_pos + 1) (pos_y current_pos) else Ok None)
          else if current_port \<in> set [BottomLeft, BottomRight] then
            (if pos_y current_pos + 1 \<le> MAX_BOARD_COORDINATE
             then new_position (pos_x current_pos) (pos_y current_pos + 1) else Ok None)
          else if current_port \<in> set [LeftBottom, LeftTop] then
            (if pos_x current_pos - 1 \<ge> MIN_BOARD_COORDINATE
             then new_position (pos_x current_pos - 1) (pos_y current_pos) else Ok None)
          else Error (CouldNotMatchPort current_port)))"

text \<open>
  One conjunct of \<open>surrounding_positions_are_empty\<close>: the neighbour is built with the
  \<open>BoardPosition\<close> constructor (which can raise) and looked up.
\<close>

definition tile_present_at :: "BoardState \<Rightarrow> int \<Rightarrow> int \<Rightarrow> bool outcome" where
  "tile_present_at s x y =
     (case BoardPosition_init x y of
        None \<Rightarrow> Raised ValueError
      | Some p \<Rightarrow> Ok (get_tile s p \<noteq> None))"

definition surrounding_positions_are_empty :: "BoardState \<Rightarrow> BoardPosition \<Rightarrow> bool outcome" where
  "surrounding_positions_are_empty s p =
     (case (if pos_y p - 1 \<ge> MIN_BOARD_COORDINATE
            then tile_present_at s (pos_x p) (pos_y p - 1) else Ok False) of
        Raised x \<Rightarrow> Raised x | Error e \<Rightarrow> Error e | Ok True \<Rightarrow> Ok False
      | Ok False \<Rightarrow>
     (case (if pos_x p - 1 \<ge> MIN_BOARD_COORDINATE
            then tile_present_at s (pos_x p - 1) (pos_y p) else Ok False) of
        Raised x \<Rightarrow> Raised x | Error e \<Rightarrow> Error e | Ok True \<Rightarrow> Ok False
      | Ok False \<Rightarrow>
     (case (if pos_y p + 1 \<le> MAX_BOARD_COORDINATE
            then tile_present_at s (pos_x p) (pos_y p + 1) else Ok False) of
        Raised x \<Rightarrow> Raised x | Error e \<Rightarrow> Error e | Ok True \<Rightarrow> Ok False
      | Ok False \<Rightarrow>
     (case (if pos_x p + 1 \<le> MAX_BOARD_COORDINATE
            then tile_present_at s (pos_x p + 1) (pos_y p) else Ok False) of
        Raised x \<Rightarrow> Raised x | Error e \<Rightarrow> Error e | Ok True \<Rightarrow> Ok False
      | Ok False \<Rightarrow> Ok True))))"

text \<open>
  The stated property behind \<open>surrounding_positions_are_empty\<close>: some position of the board
  at distance one in a cardinal direction holds a tile.
\<close>

definition neighbour_occupied :: "BoardState \<Rightarrow> BoardPosition \<Rightarrow> bool" where
  "neighbour_occupied s p \<longleftrightarrow>
     (\<exists>q. valid_pos q \<and> \<bar>pos_x q - pos_x p\<bar> + \<bar>pos_y q - pos_y p\<bar> = 1 \<and> get_tile s q \<noteq> None)"

definition port_faces_interior :: "BoardState \<Rightarrow> BoardPosition \<Rightarrow> PortID \<Rightarrow> bool" where
  "port_faces_interior s p port =
     (if pos_x p = MIN_BOARD_COORDINATE \<and> port \<in> set [LeftTop, LeftBottom] then False
      else if pos_y p = MIN_BOARD_COORDINATE \<and> port \<in> set [TopLeft, TopRight] then False
      else if pos_x p = MAX_BOARD_COORDINATE \<and> port \<in> set [RightBottom, RightTop] then False
      else if pos_y p = MAX_BOARD_COORDINATE \<and> port \<in> set [BottomRight, BottomLeft] then False
      else True)"

definition with_change ::
  "BoardState \<Rightarrow> (tile \<times> BoardPosition) option
     \<Rightarrow> (ColorString \<rightharpoonup> BoardPosition \<times> PortID) option \<Rightarrow> BoardState" where
  "with_change s added_tile_pos new_live_players =
     \<lparr>board = (case added_tile_pos of
                 None \<Rightarrow> board s
               | Some (tile, p) \<Rightarrow> (board s)(p \<mapsto> tile)),
      live_players = (case new_live_players of
                 None \<Rightarrow> live_players s
               | Some lp \<Rightarrow> lp)\<rparr>"

definition with_tile :: "BoardState \<Rightarrow> tile \<Rightarrow> BoardPosition \<Rightarrow> BoardState" where
  "with_tile s tile p = with_change s (Some (tile, p)) None"

definition with_live_players ::
  "BoardState \<Rightarrow> (ColorString \<rightharpoonup> BoardPosition \<times> PortID) \<Rightarrow> BoardState" where
  "with_live_players s new_live_players = with_change s None (Some new_live_players)"

subsection \<open>Board states as objects in a store\<close>

text \<open>
  To say that no \<open>BoardState\<close> object is mutated, objects live in a store: a list of
  object values indexed by reference. \<open>with_change\<close> as the source writes it allocates a
  fresh \<open>BoardState()\<close> and assigns its two fields; it returns the new reference and the
  new store.
\<close>

type_synonym store = "BoardState list"

definition alloc_BoardState :: "store \<Rightarrow> nat \<times> store" where
  "alloc_BoardState h = (length h, h @ [BoardState_init])"

definition with_change_obj ::
  "store \<Rightarrow> nat \<Rightarrow> (tile \<times> BoardPosition) option
     \<Rightarrow> (ColorString \<rightharpoonup> BoardPosition \<times> PortID) option \<Rightarrow> nat \<times> store" where
  "with_change_obj h self added_tile_pos new_live_players =
     (let new_board = (case added_tile_pos of
                         None \<Rightarrow> board (h ! self)
                       | Some (tile, p) \<Rightarrow> (board (h ! self))(p \<mapsto> tile));
          new_lp = (case new_live_players of
                         None \<Rightarrow> live_players (h ! self)
                       | Some lp \<Rightarrow> lp);
          (board_state, h1) = alloc_BoardState h;
          h2 = h1[board_state := (h1 ! board_state)\<lparr>live_players := new_lp\<rparr>];
          h3 = h2[board_state := (h2 ! board_state)\<lparr>board := new_board\<rparr>]
      in (board_state, h3))"

definition with_tile_obj :: "store \<Rightarrow> nat \<Rightarrow> tile \<Rightarrow> BoardPosition \<Rightarrow> nat \<times> store" where
  "with_tile_obj h self tile p = with_change_obj h self (Some (tile, p)) None"

definition with_live_players_obj ::
  "store \<Rightarrow> nat \<Rightarrow> (ColorString \<rightharpoonup> BoardPosition \<times> PortID) \<Rightarrow> nat \<times> store" where
  "with_live_players_obj h self new_live_players =
     with_change_obj h self None (Some new_live_players)"

section \<open>Physical constraints (Common/board_constraint.py)\<close>

definition is_valid_initial_position :: "BoardState \<Rightarrow> BoardPosition \<Rightarrow> unit outcome" where
  "is_valid_initial_position s p =
     (if get_tile s p \<noteq> None then Error (TileAlreadyAtPosition p)
      else if \<not> is_edge p then Error (NotOnEdge p)
      else (case surrounding_positions_are_empty s p of
              Raised x \<Rightarrow> Raised x
            | Error e \<Rightarrow> Error e
            | Ok False \<Rightarrow> Error (SurroundingNotEmpty p)
            | Ok True \<Rightarrow> Ok ()))"

definition is_valid_initial_port ::
  "BoardState \<Rightarrow> BoardPosition \<Rightarrow> PortID \<Rightarrow> unit outcome" where
  "is_valid_initial_port s p port =
     (case is_valid_initial_position s p of
        Error e \<Rightarrow> Error e
      | Raised x \<Rightarrow> Raised x
      | Ok u \<Rightarrow>
          if \<not> port_faces_interior s p port then Error (PortNotFacingInterior p port)
          else Ok ())"

section \<open>Moves (Common/moves.py)\<close>

text \<open>
  The dataclasses check their fields on construction: the port of an initial move is one
  of \<open>Port.all()\<close>, the position is a \<open>BoardPosition\<close>, the tile a \<open>Tile\<close> and the player
  one of the five colours. The colour is enforced by the type here; the other checks are
  \<open>valid_initial_move\<close> and \<open>valid_intermediate_move\<close>.
\<close>

datatype InitialMove =
  InitialMove (im_pos: BoardPosition) (im_tile: tile) (im_port: PortID) (im_player: ColorString)

datatype IntermediateMove = IntermediateMove (m_tile: tile) (m_player: ColorString)

definition AllColors :: "ColorString list" where
  "AllColors = [White, Black, Red, Green, Blue]"

definition valid_initial_move :: "InitialMove \<Rightarrow> bool" where
  "valid_initial_move m \<longleftrightarrow>
     valid_tile (im_tile m) \<and> valid_pos (im_pos m) \<and> im_port m \<in> set Port_all"

definition valid_intermediate_move :: "IntermediateMove \<Rightarrow> bool" where
  "valid_intermediate_move m \<longleftrightarrow> valid_tile (m_tile m)"

section \<open>Board observers (Common/board_observer.py)\<close>

text \<open>
  A \<open>LoggingObserver\<close> appends every event to one of its two lists. The board wraps each
  observer in \<open>silenced_object\<close>, which swallows the exceptions of any observer, so an
  observer never changes what the board does; an observer is modelled by its log.
\<close>

record LoggingObserver =
  entered_loop :: "ColorString list"
  exited_board :: "ColorString list"

definition LoggingObserver_init :: LoggingObserver where
  "LoggingObserver_init = \<lparr>entered_loop = [], exited_board = []\<rparr>"

definition player_entered_loop :: "LoggingObserver \<Rightarrow> ColorString \<Rightarrow> LoggingObserver" where
  "player_entered_loop ob player = ob\<lparr>entered_loop := entered_loop ob @ [player]\<rparr>"

definition player_exited_board :: "LoggingObserver \<Rightarrow> ColorString \<Rightarrow> LoggingObserver" where
  "player_exited_board ob player = ob\<lparr>exited_board := exited_board ob @ [player]\<rparr>"

section \<open>The board (Common/board.py)\<close>

text \<open>
  A \<open>Board\<close> object has the fields \<open>_board_state\<close> and \<open>_observers\<close>. Every method takes
  the board and returns its result together with the board afterwards. When a method
  raises, the board is returned as the exception leaves it.
\<close>

record Board =
  board_state :: BoardState
  observers :: "LoggingObserver list"

definition Board_init :: "BoardState \<Rightarrow> Board" where
  "Board_init s = \<lparr>board_state = s, observers = []\<rparr>"

definition add_observer :: "Board \<Rightarrow> LoggingObserver \<Rightarrow> Board" where
  "add_observer b ob = b\<lparr>observers := observers b @ [ob]\<rparr>"

text \<open>
  Iterating a \<open>PMap\<close> yields its keys in the order of its hash buckets, which depends on
  the hashes of the keys and on how the map was built. The order is therefore a parameter
  \<open>keys_of\<close> of every function that iterates over the live players; \<open>pmap_keys keys_of\<close>
  says that it yields every key of every map exactly once. \<open>keys_by_color\<close> is one such
  order, the one of \<open>AllColors\<close>.
\<close>

type_synonym keys_order = "(ColorString \<rightharpoonup> BoardPosition \<times> PortID) \<Rightarrow> ColorString list"

definition pmap_keys :: "keys_order \<Rightarrow> bool" where
  "pmap_keys keys_of \<longleftrightarrow> (\<forall>m. distinct (keys_of m) \<and> set (keys_of m) = dom m)"

definition keys_by_color :: keys_order where
  "keys_by_color lp = filter (\<lambda>c. lp c \<noteq> None) AllColors"

text \<open>
  The decorator \<open>atomic\<close>: keep the board state of before the call and put it back when
  the wrapped method returns an error result. An exception passes through untouched.
\<close>

definition atomic :: "(Board \<Rightarrow> unit outcome \<times> Board) \<Rightarrow> Board \<Rightarrow> unit outcome \<times> Board" where
  "atomic func self =
     (let copied_board_state = board_state self;
          (ret, self') = func self
      in if is_error ret then (ret, self'\<lparr>board_state := copied_board_state\<rparr>)
         else (ret, self'))"

definition validate_initial_move :: "Board \<Rightarrow> InitialMove \<Rightarrow> unit outcome" where
  "validate_initial_move self move =
     (if live_players (board_state self) (im_player move) \<noteq> None
      then Error (PlayerAlreadyOnBoard (im_player move))
      else (case is_valid_initial_position (board_state self) (im_pos move) of
              Error e \<Rightarrow> Error e
            | Raised x \<Rightarrow> Raised x
            | Ok u \<Rightarrow>
               (case is_valid_initial_port (board_state self) (im_pos move) (im_port move) of
                  Error e \<Rightarrow> Error e
                | Raised x \<Rightarrow> Raised x
                | Ok u \<Rightarrow> Ok ())))"

definition validate_intermediate_move :: "Board \<Rightarrow> IntermediateMove \<Rightarrow> unit outcome" where
  "validate_intermediate_move self move =
     (if live_players (board_state self) (m_player move) = None
      then Error (PlayerNotAlive (m_player move))
      else Ok ())"

text \<open>\<open>PMap.remove\<close> raises \<open>KeyError\<close> when the key is absent.\<close>

definition remove_player :: "Board \<Rightarrow> ColorString \<Rightarrow> unit outcome \<times> Board" where
  "remove_player self player =
     (if live_players (board_state self) player = None then (Raised KeyError, self)
      else (Ok (), self\<lparr>board_state :=
              with_live_players (board_state self)
                ((live_players (board_state self))(player := None))\<rparr>))"

definition notify_entered_loop :: "Board \<Rightarrow> ColorString \<Rightarrow> Board" where
  "notify_entered_loop self player =
     self\<lparr>observers := map (\<lambda>ob. player_entered_loop ob player) (observers self)\<rparr>"

definition notify_exited_board :: "Board \<Rightarrow> ColorString \<Rightarrow> Board" where
  "notify_exited_board self player =
     self\<lparr>observers := map (\<lambda>ob. player_exited_board ob player) (observers self)\<rparr>"

text \<open>
  The positions and ports from which \<open>calculate_adjacent_position_of_player\<close> can return
  a position: the grid with a margin of one cell, and the eight ports.
\<close>

definition reachable_universe :: "(BoardPosition \<times> PortID) set" where
  "reachable_universe =
     (\<lambda>(x, y, q). (BoardPosition x y, q)) ` ({-1..10} \<times> {-1..10} \<times> {..<8})"

text \<open>
  The \<open>while True\<close> loop of \<open>_move_player_along_path\<close>, with the set \<open>seen_pos_port\<close> as
  an argument. In the source the error branch for \<open>r2\<close> calls \<open>r.error()\<close> on the
  successful result \<open>r\<close>; \<open>Result.error\<close> then formats its message with \<open>%\<close> applied to
  the value of \<open>r\<close>, a pair, which raises \<open>TypeError\<close> before the
  \<open>ResultMisuseException\<close> is built.
\<close>

function move_player_loop ::
  "Board \<Rightarrow> ColorString \<Rightarrow> (BoardPosition \<times> PortID) set \<Rightarrow> bool outcome \<times> Board" where
  "move_player_loop self player seen_pos_port =
     (case get_position_of_player (board_state self) player of
        Error e \<Rightarrow> (Error (FailedToMovePlayer player e), self)
      | Raised x \<Rightarrow> (Raised x, self)
      | Ok (p, port) \<Rightarrow>
          if (p, port) \<in> seen_pos_port then (Ok True, notify_entered_loop self player)
          else
            (case calculate_adjacent_position_of_player (board_state self) player of
               Error e \<Rightarrow> (Raised TypeError, self)
             | Raised x \<Rightarrow> (Raised x, self)
             | Ok None \<Rightarrow> (Ok True, self)
             | Ok (Some next_pos) \<Rightarrow>
                (case get_tile (board_state self) next_pos of
                   None \<Rightarrow> (Ok False, self)
                 | Some next_tile \<Rightarrow>
                    (case get_adjoining_port port of
                       None \<Rightarrow> (Raised ValueError, self)
                     | Some next_port \<Rightarrow>
                        (case get_port_connected_to next_tile next_port of
                           None \<Rightarrow> (Raised ValueError, self)
                         | Some next_next_port \<Rightarrow>
                             move_player_loop
                               (self\<lparr>board_state :=
                                  with_live_players (board_state self)
                                    ((live_players (board_state self))
                                       (player \<mapsto> (next_pos, next_next_port)))\<rparr>)
                               player (insert (p, port) seen_pos_port))))))"
  by pat_completeness auto

text \<open>
  The loop terminates: a new iteration starts only after \<open>(p, port)\<close>, which was not in
  \<open>seen_pos_port\<close>, has been added, and only from a pair of \<open>reachable_universe\<close>.
\<close>

termination move_player_loop
proof (relation "measure (\<lambda>(self, player, seen). card (reachable_universe - seen))", goal_cases)
  case 1
  show ?case by simp
next
  case (2 self player seen_pos_port x1 p port x1a next_pos next_tile next_port next_next_port)
  have fin: "finite reachable_universe"
    unfolding reachable_universe_def by (intro finite_imageI finite_cartesian_product) simp_all
  have lp: "live_players (board_state self) player = Some (p, port)"
    using 2 by (auto simp: get_position_of_player_def split: option.splits)
  have "port < 8 \<and> -1 \<le> pos_x p \<and> pos_x p \<le> 10 \<and> -1 \<le> pos_y p \<and> pos_y p \<le> 10"
    using 2 lp
    by (auto simp: calculate_adjacent_position_of_player_def get_position_of_player_def
        new_position_def BoardPosition_init_def split: if_splits)
  then have "(pos_x p, pos_y p, port) \<in> {-1..10} \<times> {-1..10} \<times> {..<8}" by simp
  then have "(\<lambda>(x, y, q). (BoardPosition x y, q)) (pos_x p, pos_y p, port) \<in> reachable_universe"
    unfolding reachable_universe_def by (rule imageI)
  then have "(p, port) \<in> reachable_universe - seen_pos_port"
    using 2 by simp
  then have "card (reachable_universe - insert (p, port) seen_pos_port)
      < card (reachable_universe - seen_pos_port)"
    using fin by (metis Diff_insert card_Diff1_less finite_Diff)
  then show ?case by simp
qed

declare move_player_loop.simps [simp del]

definition move_player_along_path :: "Board \<Rightarrow> ColorString \<Rightarrow> bool outcome \<times> Board" where
  "move_player_along_path self player = move_player_loop self player {}"

text \<open>The first loop of \<open>_move_all_players_along_paths\<close>, collecting \<open>to_remove\<close>.\<close>

fun move_players ::
  "Board \<Rightarrow> ColorString list \<Rightarrow> ColorString list \<Rightarrow> ColorString list outcome \<times> Board" where
  "move_players self [] to_remove = (Ok to_remove, self)"
| "move_players self (player # rest) to_remove =
     (case move_player_along_path self player of
        (Error e, self') \<Rightarrow> (Error e, self')
      | (Raised x, self') \<Rightarrow> (Raised x, self')
      | (Ok v, self') \<Rightarrow>
          move_players self' rest (if v then to_remove @ [player] else to_remove))"

text \<open>The second loop: remove each player and tell the observers.\<close>

fun remove_players :: "Board \<Rightarrow> ColorString list \<Rightarrow> unit outcome \<times> Board" where
  "remove_players self [] = (Ok (), self)"
| "remove_players self (player # rest) =
     (case remove_player self player of
        (Error e, self') \<Rightarrow> (Error e, self')
      | (Raised x, self') \<Rightarrow> (Raised x, self')
      | (Ok u, self') \<Rightarrow> remove_players (notify_exited_board self' player) rest)"

definition move_all_players_along_paths ::
  "keys_order \<Rightarrow> Board \<Rightarrow> unit outcome \<times> Board" where
  "move_all_players_along_paths keys_of self =
     (case move_players self (keys_of (live_players (board_state self))) [] of
        (Error e, self') \<Rightarrow> (Error e, self')
      | (Raised x, self') \<Rightarrow> (Raised x, self')
      | (Ok to_remove, self') \<Rightarrow> remove_players self' to_remove)"

definition initial_move_with_scissors_body ::
  "keys_order \<Rightarrow> InitialMove \<Rightarrow> Board \<Rightarrow> unit outcome \<times> Board" where
  "initial_move_with_scissors_body keys_of move self =
     move_all_players_along_paths keys_of
       (self\<lparr>board_state :=
          with_change (board_state self) (Some (im_tile move, im_pos move))
            (Some ((live_players (board_state self))
                     (im_player move \<mapsto> (im_pos move, im_port move))))\<rparr>)"

definition initial_move_with_scissors ::
  "keys_order \<Rightarrow> Board \<Rightarrow> InitialMove \<Rightarrow> unit outcome \<times> Board" where
  "initial_move_with_scissors keys_of self move =
     atomic (initial_move_with_scissors_body keys_of move) self"

definition initial_move_body ::
  "keys_order \<Rightarrow> InitialMove \<Rightarrow> Board \<Rightarrow> unit outcome \<times> Board" where
  "initial_move_body keys_of move self =
     (case validate_initial_move self move of
        Error e \<Rightarrow> (Error e, self)
      | Raised x \<Rightarrow> (Raised x, self)
      | Ok u \<Rightarrow> initial_move_with_scissors keys_of self move)"

definition initial_move ::
  "keys_order \<Rightarrow> Board \<Rightarrow> InitialMove \<Rightarrow> unit outcome \<times> Board" where
  "initial_move keys_of self move = atomic (initial_move_body keys_of move) self"

text \<open>The loop over \<open>temp_logging_observer.entered_loop\<close> in \<open>intermediate_move\<close>.\<close>

fun remove_looped_players :: "Board \<Rightarrow> ColorString list \<Rightarrow> unit outcome \<times> Board" where
  "remove_looped_players self [] = (Ok (), self)"
| "remove_looped_players self (player # rest) =
     (case remove_player self player of
        (Error e, self') \<Rightarrow> (Error e, self')
      | (Raised x, self') \<Rightarrow> (Raised x, self')
      | (Ok u, self') \<Rightarrow> remove_looped_players self' rest)"

text \<open>
  \<open>intermediate_move\<close> appends a fresh \<open>LoggingObserver\<close> to the observers, so it is the
  last one of the list until \<open>remove_observer\<close> takes it out again. The early
  \<open>return r\<close> leaves it registered, as the source does.
\<close>

definition intermediate_move_body ::
  "keys_order \<Rightarrow> IntermediateMove \<Rightarrow> Board \<Rightarrow> unit outcome \<times> Board" where
  "intermediate_move_body keys_of move self =
     (case validate_intermediate_move self move of
        Error e \<Rightarrow> (Error e, self)
      | Raised x \<Rightarrow> (Raised x, self)
      | Ok u \<Rightarrow>
     (case calculate_adjacent_position_of_player (board_state self) (m_player move) of
        Error e \<Rightarrow> (Error (CannotPlaceTile (m_player move) e), self)
      | Raised x \<Rightarrow> (Raised x, self)
      | Ok None \<Rightarrow> (Error (WouldGoOffEdge (m_player move)), self)
      | Ok (Some p) \<Rightarrow>
          if get_tile (board_state self) p \<noteq> None
          then (Error (OnTopOfExistingTile (m_player move)), self)
          else
            (let orig_board_state = board_state self;
                 self1 = add_observer self LoggingObserver_init;
                 self2 = self1\<lparr>board_state := with_tile (board_state self1) (m_tile move) p\<rparr>
             in (case move_all_players_along_paths keys_of self2 of
                   (Error e, self3) \<Rightarrow> (Error e, self3)
                 | (Raised x, self3) \<Rightarrow> (Raised x, self3)
                 | (Ok u, self3) \<Rightarrow>
                     if entered_loop (last (observers self3)) \<noteq> [] then
                       (case remove_looped_players (self3\<lparr>board_state := orig_board_state\<rparr>)
                               (entered_loop (last (observers self3))) of
                          (Error e, self4) \<Rightarrow> (Error e, self4)
                        | (Raised x, self4) \<Rightarrow> (Raised x, self4)
                        | (Ok u, self4) \<Rightarrow>
                            (Ok (), self4\<lparr>observers := butlast (observers self4)\<rparr>))
                     else (Ok (), self3\<lparr>observers := butlast (observers self3)\<rparr>)))))"

definition intermediate_move ::
  "keys_order \<Rightarrow> Board \<Rightarrow> IntermediateMove \<Rightarrow> unit outcome \<times> Board" where
  "intermediate_move keys_of self move = atomic (intermediate_move_body keys_of move) self"

definition place_tile_at_index_with_scissors_body ::
  "keys_order \<Rightarrow> tile \<Rightarrow> BoardPosition \<Rightarrow> Board \<Rightarrow> unit outcome \<times> Board" where
  "place_tile_at_index_with_scissors_body keys_of tile p self =
     move_all_players_along_paths keys_of (self\<lparr>board_state := with_tile (board_state self) tile p\<rparr>)"

definition place_tile_at_index_with_scissors ::
  "keys_order \<Rightarrow> Board \<Rightarrow> tile \<Rightarrow> BoardPosition \<Rightarrow> unit outcome \<times> Board" where
  "place_tile_at_index_with_scissors keys_of self tile p =
     atomic (place_tile_at_index_with_scissors_body keys_of tile p) self"

text \<open>
  The same loop with a bound on the number of iterations: the result is \<open>None\<close> when the
  bound is reached before the loop has returned.
\<close>

fun move_player_fuel ::
  "nat \<Rightarrow> Board \<Rightarrow> ColorString \<Rightarrow> (BoardPosition \<times> PortID) set
     \<Rightarrow> (bool outcome \<times> Board) option" where
  "move_player_fuel 0 self player seen_pos_port = None"
| "move_player_fuel (Suc n) self player seen_pos_port =
     (case get_position_of_player (board_state self) player of
        Error e \<Rightarrow> Some (Error (FailedToMovePlayer player e), self)
      | Raised x \<Rightarrow> Some (Raised x, self)
      | Ok (p, port) \<Rightarrow>
          if (p, port) \<in> seen_pos_port then Some (Ok True, notify_entered_loop self player)
          else
            (case calculate_adjacent_position_of_player (board_state self) player of
               Error e \<Rightarrow> Some (Raised TypeError, self)
             | Raised x \<Rightarrow> Some (Raised x, self)
             | Ok None \<Rightarrow> Some (Ok True, self)
             | Ok (Some next_pos) \<Rightarrow>
                (case get_tile (board_state self) next_pos of
                   None \<Rightarrow> Some (Ok False, self)
                 | Some next_tile \<Rightarrow>
                    (case get_adjoining_port port of
                       None \<Rightarrow> Some (Raised ValueError, self)
                     | Some next_port \<Rightarrow>
                        (case get_port_connected_to next_tile next_port of
                           None \<Rightarrow> Some (Raised ValueError, self)
                         | Some next_next_port \<Rightarrow>
                             move_player_fuel n
                               (self\<lparr>board_state :=
                                  with_live_players (board_state self)
                                    ((live_players (board_state self))
                                       (player \<mapsto> (next_pos, next_next_port)))\<rparr>)
                               player (insert (p, port) seen_pos_port))))))"

text \<open>The (position, port) pairs of the 10 x 10 grid.\<close>

definition grid_pos_ports :: "(BoardPosition \<times> PortID) set" where
  "grid_pos_ports = (\<lambda>(x, y, q). (BoardPosition x y, q)) ` ({0..9} \<times> {0..9} \<times> {..<8})"

text \<open>
  The values the classes admit: a \<open>BoardPosition\<close> has coordinates in 0..9 (its
  constructor checks them), a port is one of \<open>Port.all()\<close>, and a \<open>Tile\<close> satisfies the
  assertions of its constructor.
\<close>

definition wf_board_state :: "BoardState \<Rightarrow> bool" where
  "wf_board_state s \<longleftrightarrow>
     (\<forall>c p q. live_players s c = Some (p, q) \<longrightarrow> valid_pos p \<and> q < 8)
     \<and> (\<forall>p t. board s p = Some t \<longrightarrow> valid_tile t)"

text \<open>
  What a sequence of notifications does to one \<open>LoggingObserver\<close>: \<open>loops\<close> are appended to
  \<open>entered_loop\<close> and \<open>exits\<close> to \<open>exited_board\<close>.
\<close>

definition logged :: "ColorString list \<Rightarrow> ColorString list \<Rightarrow> LoggingObserver \<Rightarrow> LoggingObserver" where
  "logged loops exits ob =
     ob\<lparr>entered_loop := entered_loop ob @ loops, exited_board := exited_board ob @ exits\<rparr>"


section \<open>The rule checker (Common/rules.py)\<close>

text \<open>
  \<open>tile not in tile_choices\<close> compares the chosen tile with each offered tile by
  \<open>Tile.__eq__\<close>, from left to right, and stops at the first that is equal.
\<close>

fun tile_in :: "tile \<Rightarrow> tile list \<Rightarrow> bool option" where
  "tile_in t [] = Some False"
| "tile_in t (e # es) =
     (case tile_eq e t of
        None \<Rightarrow> None
      | Some True \<Rightarrow> Some True
      | Some False \<Rightarrow> tile_in t es)"

abbreviation (input) EXPECTED_TILE_COUNT_INITIAL_MOVE :: nat where
  "EXPECTED_TILE_COUNT_INITIAL_MOVE \<equiv> 3"
abbreviation (input) EXPECTED_TILE_COUNT_INTERMEDIATE_MOVE :: nat where
  "EXPECTED_TILE_COUNT_INTERMEDIATE_MOVE \<equiv> 2"

definition check_valid_move_params :: "tile list \<Rightarrow> tile \<Rightarrow> nat \<Rightarrow> unit outcome" where
  "check_valid_move_params tile_choices tile expected =
     (if length tile_choices \<noteq> expected
      then Error (WrongTileCount (length tile_choices) expected)
      else (case tile_in tile tile_choices of
              None \<Rightarrow> Raised AssertionError
            | Some False \<Rightarrow> Error TileNotInChoices
            | Some True \<Rightarrow> Ok ()))"

text \<open>
  \<open>RuleChecker.validate_initial_move\<close>; the suffix keeps it apart from the method of the
  same name of \<open>Board\<close>.
\<close>

definition validate_initial_move_rules ::
  "BoardState \<Rightarrow> tile list \<Rightarrow> InitialMove \<Rightarrow> unit outcome" where
  "validate_initial_move_rules state tile_choices move =
     (case check_valid_move_params tile_choices (im_tile move) EXPECTED_TILE_COUNT_INITIAL_MOVE of
        Error e \<Rightarrow> Error e
      | Raised x \<Rightarrow> Raised x
      | Ok u \<Rightarrow> validate_initial_move (Board_init state) move)"

text \<open>
  \<open>move_creates_loop\<close> and \<open>is_move_suicidal\<close> play the move on a scratch board that has
  one observer, \<open>logging_observer\<close>, registered first; it is the head of the observer list
  whatever \<open>intermediate_move\<close> registers after it.
\<close>

definition move_creates_loop ::
  "keys_order \<Rightarrow> BoardState \<Rightarrow> IntermediateMove \<Rightarrow> bool outcome" where
  "move_creates_loop keys_of state move =
     (case intermediate_move keys_of (add_observer (Board_init state) LoggingObserver_init) move of
        (Error e, b) \<Rightarrow> Error e
      | (Raised x, b) \<Rightarrow> Raised x
      | (Ok u, b) \<Rightarrow> Ok (length (entered_loop (hd (observers b))) > 0))"

definition is_move_suicidal ::
  "keys_order \<Rightarrow> BoardState \<Rightarrow> IntermediateMove \<Rightarrow> bool outcome" where
  "is_move_suicidal keys_of state move =
     (if live_players state (m_player move) = None
      then Error (NotALivePlayerForSuicide (m_player move))
      else
       (case intermediate_move keys_of (add_observer (Board_init state) LoggingObserver_init)
               move of
          (Error e, b) \<Rightarrow> Error e
        | (Raised x, b) \<Rightarrow> Raised x
        | (Ok u, b) \<Rightarrow>
            Ok (live_players (board_state b) (m_player move) = None
                \<and> length (entered_loop (hd (observers b))) \<le> 0)))"

text \<open>
  The two nested loops of \<open>is_legal_for_condition\<close>: the inner one over the four rotations
  of one offered tile, the outer one over the offered tiles. \<open>all_rotations\<close> builds its
  whole list before the inner loop starts.
\<close>

fun check_rotations ::
  "(IntermediateMove \<Rightarrow> bool outcome) \<Rightarrow> ColorString \<Rightarrow> (tile \<Rightarrow> err) \<Rightarrow> tile list
     \<Rightarrow> unit outcome" where
  "check_rotations legality_check player error_message [] = Ok ()"
| "check_rotations legality_check player error_message (rotated_tile_choice # rest) =
     (case legality_check (IntermediateMove rotated_tile_choice player) of
        Error e \<Rightarrow> Error e
      | Raised x \<Rightarrow> Raised x
      | Ok False \<Rightarrow> Error (error_message rotated_tile_choice)
      | Ok True \<Rightarrow> check_rotations legality_check player error_message rest)"

fun check_tile_choices ::
  "(IntermediateMove \<Rightarrow> bool outcome) \<Rightarrow> ColorString \<Rightarrow> (tile \<Rightarrow> err) \<Rightarrow> tile list
     \<Rightarrow> unit outcome" where
  "check_tile_choices legality_check player error_message [] = Ok ()"
| "check_tile_choices legality_check player error_message (tile_choice # rest) =
     (case all_rotations tile_choice of
        None \<Rightarrow> Raised AssertionError
      | Some rotations \<Rightarrow>
         (case check_rotations legality_check player error_message rotations of
            Error e \<Rightarrow> Error e
          | Raised x \<Rightarrow> Raised x
          | Ok u \<Rightarrow> check_tile_choices legality_check player error_message rest))"

definition is_legal_for_condition ::
  "(BoardState \<Rightarrow> IntermediateMove \<Rightarrow> bool outcome) \<Rightarrow> BoardState \<Rightarrow> tile list
     \<Rightarrow> IntermediateMove \<Rightarrow> (tile \<Rightarrow> err) \<Rightarrow> unit outcome" where
  "is_legal_for_condition legality_check state tile_choices move error_message =
     (case legality_check state move of
        Error e \<Rightarrow> Error e
      | Raised x \<Rightarrow> Raised x
      | Ok False \<Rightarrow> Ok ()
      | Ok True \<Rightarrow>
          check_tile_choices (legality_check state) (m_player move) error_message tile_choices)"

definition validate_move ::
  "keys_order \<Rightarrow> BoardState \<Rightarrow> tile list \<Rightarrow> IntermediateMove \<Rightarrow> unit outcome" where
  "validate_move keys_of state tile_choices move =
     (case check_valid_move_params tile_choices (m_tile move)
             EXPECTED_TILE_COUNT_INTERMEDIATE_MOVE of
        Error e \<Rightarrow> Error e
      | Raised x \<Rightarrow> Raised x
      | Ok u \<Rightarrow>
     (case validate_intermediate_move (Board_init state) move of
        Error e \<Rightarrow> Error e
      | Raised x \<Rightarrow> Raised x
      | Ok u \<Rightarrow>
     (case is_legal_for_condition (move_creates_loop keys_of) state tile_choices move LoopyMove of
        Error e \<Rightarrow> Error e
      | Raised x \<Rightarrow> Raised x
      | Ok u \<Rightarrow>
     (case is_legal_for_condition (is_move_suicidal keys_of) state tile_choices move
             SuicidalMove of
        Error e \<Rightarrow> Error e
      | Raised x \<Rightarrow> Raised x
      | Ok u \<Rightarrow> Ok ()))))"


section \<open>The referee (Admin/referee.py)\<close>

text \<open>
  The referee talks to three kinds of objects it does not implement: players, a rule
  checker and a tile iterator.

  A player object is wrapped in \<open>silenced_object\<close> and called under a time limit by
  \<open>_handle_player_timeout\<close>. A call of \<open>generate_first_move\<close> or \<open>generate_move\<close> has
  three outcomes for the referee: \<open>Answer v\<close> is the result \<open>ok(v)\<close>; \<open>Refusal\<close> is an error
  result (the wrapper also turns an exception of the player into one); \<open>Silence\<close> is the
  branch in which the handler catches an exception, adds the player to the cheaters and
  returns \<open>None\<close>. The calls \<open>set_color\<close> and \<open>set_players\<close> return nothing; their model
  only says whether the handler stayed out of that branch. A player may answer
  differently each time it is asked, so the move generators take the number of tiles drawn
  from the tile iterator so far as a first argument; it is different at every call. A
  player object is compared by identity, \<open>pl_ident\<close>. Values returned by a player are
  assumed to have the declared types. Observers of the referee only receive
  notifications and are not modelled.
\<close>

datatype 'a reply = Answer 'a | Refusal | Silence

record PlayerInterface =
  pl_ident :: nat
  pl_set_color :: "ColorString \<Rightarrow> bool"
  pl_set_players :: "ColorString set \<Rightarrow> bool"
  pl_generate_first_move ::
    "nat \<Rightarrow> tile list \<Rightarrow> BoardState \<Rightarrow> (BoardPosition \<times> tile \<times> PortID) reply"
  pl_generate_move :: "nat \<Rightarrow> tile list \<Rightarrow> BoardState \<Rightarrow> tile reply"

text \<open>A rule checker object: the two methods the referee calls.\<close>

record RuleCheckerObj =
  rc_validate_initial_move :: "BoardState \<Rightarrow> tile list \<Rightarrow> InitialMove \<Rightarrow> unit outcome"
  rc_validate_move :: "BoardState \<Rightarrow> tile list \<Rightarrow> IntermediateMove \<Rightarrow> unit outcome"

text \<open>The class \<open>RuleChecker\<close> of \<open>Common/rules.py\<close> as such an object.\<close>

definition RuleChecker :: "keys_order \<Rightarrow> RuleCheckerObj" where
  "RuleChecker keys_of =
     \<lparr>rc_validate_initial_move = validate_initial_move_rules,
      rc_validate_move = validate_move keys_of\<rparr>"

text \<open>
  A tile iterator: the sequence it yields (\<open>None\<close> where \<open>next\<close> raises \<open>StopIteration\<close>)
  and the number of tiles already taken from it. \<open>deterministic_tile_iterator\<close> yields the
  tiles of the tile file over and over; the list of these tiles is its argument here.
\<close>

record TileIterator =
  ti_items :: "nat \<Rightarrow> tile option"
  ti_next :: nat

definition cycle_tiles :: "tile list \<Rightarrow> nat \<Rightarrow> tile option" where
  "cycle_tiles ts n = (if ts = [] then None else Some (ts ! (n mod length ts)))"

definition deterministic_tile_iterator :: "tile list \<Rightarrow> TileIterator" where
  "deterministic_tile_iterator ts = \<lparr>ti_items = cycle_tiles ts, ti_next = 0\<rparr>"

text \<open>
  The fields of a \<open>Referee\<close>. \<open>_players\<close> is a \<open>dict\<close>, which keeps its keys in the order
  of insertion: an association list.
\<close>

record Referee =
  players :: "(ColorString \<times> PlayerInterface) list"
  rule_checker :: "RuleCheckerObj option"
  tile_iterator :: "TileIterator option"
  leaderboard :: "ColorString set list"
  cheaters :: "ColorString set"

definition Referee_init :: Referee where
  "Referee_init =
     \<lparr>players = [], rule_checker = None, tile_iterator = None, leaderboard = [],
      cheaters = {}\<rparr>"

definition set_players ::
  "Referee \<Rightarrow> PlayerInterface list \<Rightarrow> ColorString list outcome \<times> Referee" where
  "set_players self new_players =
     (if players self \<noteq> [] then (Error PlayersAlreadySet, self)
      else if length new_players < 3 \<or> length new_players > 5
      then (Error (WrongPlayerCount (length new_players)), self)
      else if card (set (map pl_ident new_players)) \<noteq> length new_players
      then (Error DuplicatePlayers, self)
      else (let assigned_colors = take (length new_players) AllColors
            in (Ok assigned_colors, self\<lparr>players := zip assigned_colors new_players\<rparr>)))"

definition set_rule_checker :: "Referee \<Rightarrow> RuleCheckerObj \<Rightarrow> Referee" where
  "set_rule_checker self new_rule_checker = self\<lparr>rule_checker := Some new_rule_checker\<rparr>"

definition set_tile_iterator :: "Referee \<Rightarrow> TileIterator \<Rightarrow> Referee" where
  "set_tile_iterator self new_tile_iterator = self\<lparr>tile_iterator := Some new_tile_iterator\<rparr>"

text \<open>The number of tiles drawn so far, which the model passes to the move generators.\<close>

definition tiles_drawn :: "Referee \<Rightarrow> nat" where
  "tiles_drawn self = (case tile_iterator self of None \<Rightarrow> 0 | Some ti \<Rightarrow> ti_next ti)"

text \<open>The loop of \<open>_initialize_players\<close>, on the set of cheaters.\<close>

fun initialize_players_loop ::
  "(ColorString \<times> PlayerInterface) list \<Rightarrow> ColorString set \<Rightarrow> ColorString set
     \<Rightarrow> ColorString set" where
  "initialize_players_loop [] colors ch = ch"
| "initialize_players_loop ((color, player) # rest) colors ch =
     (let ch1 = (if pl_set_color player color then ch else insert color ch);
          ch2 = (if pl_set_players player (colors - {color}) then ch1 else insert color ch1)
      in initialize_players_loop rest colors ch2)"

definition initialize_players :: "Referee \<Rightarrow> unit outcome \<times> Referee" where
  "initialize_players self =
     (if rule_checker self = None then (Raised AssertionError, self)
      else (Ok (),
            self\<lparr>cheaters := initialize_players_loop (players self)
                                (fst ` set (players self)) (cheaters self)\<rparr>))"

text \<open>
  \<open>_remove_cheaters\<close> walks the set of cheaters; for each it deletes the entry of
  \<open>_players\<close>, if there is one, and removes the player from the board, if it is live. The
  result does not depend on the order of the walk.
\<close>

definition remove_cheaters :: "Referee \<Rightarrow> Board \<Rightarrow> Referee \<times> Board" where
  "remove_cheaters self brd =
     (self\<lparr>players := filter (\<lambda>(color, player). color \<notin> cheaters self) (players self)\<rparr>,
      brd\<lparr>board_state :=
        with_live_players (board_state brd)
          (live_players (board_state brd) |` (- cheaters self))\<rparr>)"

text \<open>The list comprehension of \<open>_get_tiles\<close>.\<close>

fun next_tiles :: "nat \<Rightarrow> TileIterator \<Rightarrow> tile list outcome \<times> TileIterator" where
  "next_tiles 0 ti = (Ok [], ti)"
| "next_tiles (Suc n) ti =
     (case ti_items ti (ti_next ti) of
        None \<Rightarrow> (Raised StopIteration, ti)
      | Some t \<Rightarrow>
         (case next_tiles n (ti\<lparr>ti_next := Suc (ti_next ti)\<rparr>) of
            (Ok ts, ti') \<Rightarrow> (Ok (t # ts), ti')
          | (Error e, ti') \<Rightarrow> (Error e, ti')
          | (Raised x, ti') \<Rightarrow> (Raised x, ti')))"

definition get_tiles :: "Referee \<Rightarrow> nat \<Rightarrow> tile list outcome \<times> Referee" where
  "get_tiles self num_tiles =
     (case tile_iterator self of
        None \<Rightarrow> (Raised ValueError, self)
      | Some ti \<Rightarrow>
         (case next_tiles num_tiles ti of
            (r, ti') \<Rightarrow> (r, self\<lparr>tile_iterator := Some ti'\<rparr>)))"

definition confirm_all_components :: "Referee \<Rightarrow> unit outcome" where
  "confirm_all_components self =
     (if players self = [] then Error MustAddPlayers
      else if rule_checker self = None then Error MustAddRuleChecker
      else if tile_iterator self = None then Error MustAddTileIterator
      else Ok ())"

text \<open>
  \<open>_get_check_initial_move\<close>. After \<open>Silence\<close> the handler has returned \<open>None\<close>, and
  \<open>r_initial_move.is_error()\<close> raises \<open>AttributeError\<close>. The constructor of \<open>InitialMove\<close>
  raises \<open>ValueError\<close> for a port that is not one of \<open>Port.all()\<close>. When the rule checker
  rejects the move, the source calls \<open>r_initial_move.error()\<close> on the successful result of
  the player; \<open>Result.error\<close> formats its message with \<open>%\<close> applied to the value, a triple,
  which raises \<open>TypeError\<close>.
\<close>

definition get_check_initial_move ::
  "Referee \<Rightarrow> Board \<Rightarrow> ColorString \<Rightarrow> PlayerInterface \<Rightarrow> tile list
     \<Rightarrow> InitialMove outcome \<times> Referee" where
  "get_check_initial_move self brd color player tiles =
     (case pl_generate_first_move player (tiles_drawn self) tiles (board_state brd) of
        Silence \<Rightarrow> (Raised AttributeError, self\<lparr>cheaters := insert color (cheaters self)\<rparr>)
      | Refusal \<Rightarrow> (Error PlayerError, self\<lparr>cheaters := insert color (cheaters self)\<rparr>)
      | Answer (pos, tile, port) \<Rightarrow>
          if port \<notin> set Port_all then (Raised ValueError, self)
          else
           (case rule_checker self of
              None \<Rightarrow> (Raised AttributeError, self)
            | Some rc \<Rightarrow>
               (case rc_validate_initial_move rc (board_state brd) tiles
                       (InitialMove pos tile port color) of
                  Error e \<Rightarrow> (Raised TypeError, self\<lparr>cheaters := insert color (cheaters self)\<rparr>)
                | Raised x \<Rightarrow> (Raised x, self)
                | Ok u \<Rightarrow> (Ok (InitialMove pos tile port color), self))))"

text \<open>The loop of \<open>_run_game_initial_turns\<close> over \<open>self._players.items()\<close>.\<close>

fun initial_turns_loop ::
  "keys_order \<Rightarrow> (ColorString \<times> PlayerInterface) list \<Rightarrow> Referee \<Rightarrow> Board
     \<Rightarrow> unit outcome \<times> Referee \<times> Board" where
  "initial_turns_loop keys_of [] self brd = (Ok (), self, brd)"
| "initial_turns_loop keys_of ((color, player) # rest) self brd =
     (case get_tiles self 3 of
        (Error e, self1) \<Rightarrow> (Error e, self1, brd)
      | (Raised x, self1) \<Rightarrow> (Raised x, self1, brd)
      | (Ok tiles, self1) \<Rightarrow>
         (case get_check_initial_move self1 brd color player tiles of
            (Error e, self2) \<Rightarrow> initial_turns_loop keys_of rest self2 brd
          | (Raised x, self2) \<Rightarrow> (Raised x, self2, brd)
          | (Ok move, self2) \<Rightarrow>
             (case initial_move keys_of brd move of
                (Error e, brd') \<Rightarrow> (Error e, self2, brd')
              | (Raised x, brd') \<Rightarrow> (Raised x, self2, brd')
              | (Ok u, brd') \<Rightarrow> initial_turns_loop keys_of rest self2 brd')))"

definition run_game_initial_turns ::
  "keys_order \<Rightarrow> Referee \<Rightarrow> Board \<Rightarrow> unit outcome \<times> Referee \<times> Board" where
  "run_game_initial_turns keys_of self brd =
     (case confirm_all_components self of
        Error e \<Rightarrow> (Error e, self, brd)
      | Raised x \<Rightarrow> (Raised x, self, brd)
      | Ok u \<Rightarrow>
         (case initial_turns_loop keys_of (players self) self brd of
            (Error e, self', brd') \<Rightarrow> (Error e, self', brd')
          | (Raised x, self', brd') \<Rightarrow> (Raised x, self', brd')
          | (Ok u, self', brd') \<Rightarrow>
              (case remove_cheaters self' brd' of
                 (self'', brd'') \<Rightarrow> (Ok (), self'', brd''))))"

text \<open>\<open>_get_check_intermediate_move\<close>.\<close>

definition get_check_intermediate_move ::
  "Referee \<Rightarrow> ColorString \<Rightarrow> Board \<Rightarrow> tile list \<Rightarrow> PlayerInterface
     \<Rightarrow> IntermediateMove outcome \<times> Referee" where
  "get_check_intermediate_move self color brd tiles player =
     (case pl_generate_move player (tiles_drawn self) tiles (board_state brd) of
        Silence \<Rightarrow> (Raised AttributeError, self\<lparr>cheaters := insert color (cheaters self)\<rparr>)
      | Refusal \<Rightarrow> (Error PlayerError, self\<lparr>cheaters := insert color (cheaters self)\<rparr>)
      | Answer tile \<Rightarrow>
         (case rule_checker self of
            None \<Rightarrow> (Raised AttributeError, self)
          | Some rc \<Rightarrow>
             (case rc_validate_move rc (board_state brd) tiles (IntermediateMove tile color) of
                Error e \<Rightarrow> (Error e, self\<lparr>cheaters := insert color (cheaters self)\<rparr>)
              | Raised x \<Rightarrow> (Raised x, self)
              | Ok u \<Rightarrow> (Ok (IntermediateMove tile color), self))))"

text \<open>
  The loop of \<open>_run_game_single_round\<close> over \<open>list(self._players.items())\<close>, a copy taken
  before the loop.
\<close>

fun single_round_loop ::
  "keys_order \<Rightarrow> (ColorString \<times> PlayerInterface) list \<Rightarrow> Referee \<Rightarrow> Board
     \<Rightarrow> unit outcome \<times> Referee \<times> Board" where
  "single_round_loop keys_of [] self brd = (Ok (), self, brd)"
| "single_round_loop keys_of ((color, player) # rest) self brd =
     (if live_players (board_state brd) color = None
      then single_round_loop keys_of rest self brd
      else
       (case get_tiles self 2 of
          (Error e, self1) \<Rightarrow> (Error e, self1, brd)
        | (Raised x, self1) \<Rightarrow> (Raised x, self1, brd)
        | (Ok tiles, self1) \<Rightarrow>
           (case get_check_intermediate_move self1 color brd tiles player of
              (Error e, self2) \<Rightarrow> single_round_loop keys_of rest self2 brd
            | (Raised x, self2) \<Rightarrow> (Raised x, self2, brd)
            | (Ok move, self2) \<Rightarrow>
               (case intermediate_move keys_of brd move of
                  (Error e, brd') \<Rightarrow> (Error e, self2, brd')
                | (Raised x, brd') \<Rightarrow> (Raised x, self2, brd')
                | (Ok u, brd') \<Rightarrow> single_round_loop keys_of rest self2 brd'))))"

text \<open>
  \<open>_handle_players_lost_in_round\<close>. The set of killed players is computed before the loop;
  for each of them the loop adds the player to the last tier and deletes its entry of
  \<open>_players\<close>, which raises \<open>KeyError\<close> when there is none.
\<close>

definition handle_players_lost_in_round ::
  "Referee \<Rightarrow> Board \<Rightarrow> ColorString set \<Rightarrow> ColorString set
     \<Rightarrow> unit outcome \<times> Referee \<times> Board" where
  "handle_players_lost_in_round self brd alive_at_start_of_round alive_at_end_of_round =
     (let killed = alive_at_start_of_round - alive_at_end_of_round - cheaters self
      in if \<not> killed \<subseteq> fst ` set (players self) then (Raised KeyError, self, brd)
         else
          (case remove_cheaters
                  (self\<lparr>leaderboard := butlast (leaderboard self) @ [last (leaderboard self) \<union> killed],
                        players := filter (\<lambda>(color, player). color \<notin> killed) (players self)\<rparr>)
                  brd of
             (self', brd') \<Rightarrow> (Ok (), self', brd')))"

definition run_game_single_round ::
  "keys_order \<Rightarrow> Referee \<Rightarrow> Board \<Rightarrow> unit outcome \<times> Referee \<times> Board" where
  "run_game_single_round keys_of self brd =
     (case confirm_all_components self of
        Error e \<Rightarrow> (Error e, self, brd)
      | Raised x \<Rightarrow> (Raised x, self, brd)
      | Ok u \<Rightarrow>
         (let alive_at_start_of_round = dom (live_players (board_state brd))
          in (case single_round_loop keys_of (players self) self brd of
                (Error e, self1, board1) \<Rightarrow> (Error e, self1, board1)
              | (Raised x, self1, board1) \<Rightarrow> (Raised x, self1, board1)
              | (Ok u, self1, board1) \<Rightarrow>
                  handle_players_lost_in_round
                    (self1\<lparr>leaderboard := leaderboard self1 @ [{}]\<rparr>) board1
                    alive_at_start_of_round (dom (live_players (board_state board1))))))"

text \<open>A game result: the tiers, best first, and the cheaters.\<close>

type_synonym GameResult = "ColorString set list \<times> ColorString set"

definition generate_game_result :: "Referee \<Rightarrow> Board \<Rightarrow> GameResult outcome \<times> Referee" where
  "generate_game_result self brd =
     (let self1 = self\<lparr>leaderboard :=
                    leaderboard self @ [dom (live_players (board_state brd))]\<rparr>
      in (Ok (filter (\<lambda>x. x \<noteq> {}) (rev (leaderboard self1)), cheaters self1), self1))"

text \<open>
  The \<open>while True\<close> loop of \<open>run_game\<close> with a bound on the number of rounds; \<open>None\<close> when
  the bound is reached with more than one player still on the board.
\<close>

fun run_rounds ::
  "nat \<Rightarrow> keys_order \<Rightarrow> Referee \<Rightarrow> Board \<Rightarrow> (unit outcome \<times> Referee \<times> Board) option" where
  "run_rounds 0 keys_of self brd = None"
| "run_rounds (Suc n) keys_of self brd =
     (if card (dom (live_players (board_state brd))) \<le> 1 then Some (Ok (), self, brd)
      else
       (case run_game_single_round keys_of self brd of
          (Error e, self', brd') \<Rightarrow> Some (Error e, self', brd')
        | (Raised x, self', brd') \<Rightarrow> Some (Raised x, self', brd')
        | (Ok u, self', brd') \<Rightarrow> run_rounds n keys_of self' brd'))"

definition run_game ::
  "nat \<Rightarrow> keys_order \<Rightarrow> Referee \<Rightarrow> (GameResult outcome \<times> Referee) option" where
  "run_game max_rounds keys_of self =
     (if players self = [] then Some (Error MustAddPlayers, self)
      else if rule_checker self = None then Some (Error MustAddRuleChecker, self)
      else if tile_iterator self = None then Some (Error MustAddTileIterator, self)
      else
       (case initialize_players self of
          (Error e, self0) \<Rightarrow> Some (Error e, self0)
        | (Raised x, self0) \<Rightarrow> Some (Raised x, self0)
        | (Ok u, self0) \<Rightarrow>
           (case run_game_initial_turns keys_of self0 (Board_init BoardState_init) of
              (Error e, self1, board1) \<Rightarrow> Some (Error e, self1)
            | (Raised x, self1, board1) \<Rightarrow> Some (Raised x, self1)
            | (Ok u, self1, board1) \<Rightarrow>
               (case run_rounds max_rounds keys_of self1 board1 of
                  None \<Rightarrow> None
                | Some (Error e, self2, board2) \<Rightarrow> Some (Error e, self2)
                | Some (Raised x, self2, board2) \<Rightarrow> Some (Raised x, self2)
                | Some (Ok u, self2, board2) \<Rightarrow> Some (generate_game_result self2 board2)))))"

section \<open>Properties of tiles\<close>

subsection \<open>Normalisation and rotation\<close>

lemma normalize_edges_alt:
  "normalize_edges es = sorted_list_of_multiset (image_mset order_edge (mset es))"
proof -
  have "(\<lambda>(a, b). (min a b, max a b)) = order_edge"
    by (auto simp: order_edge_def fun_eq_iff)
  then show ?thesis
    by (simp add: normalize_edges_def sorted_list_of_multiset_mset [symmetric] del: sorted_list_of_multiset_mset)
qed

lemma mset_normalize_edges: "mset (normalize_edges es) = image_mset order_edge (mset es)"
  by (simp add: normalize_edges_alt)

lemma length_normalize_edges: "length (normalize_edges es) = length es"
  by (simp add: normalize_edges_def)

lemma order_shift_order: "order_edge (shift_edge (order_edge e)) = order_edge (shift_edge e)"
  by (auto simp: order_edge_def shift_edge_def min_def max_def)

lemma normalize_edges_cong:
  "image_mset order_edge (mset es) = image_mset order_edge (mset fs) \<Longrightarrow>
   normalize_edges es = normalize_edges fs"
  by (simp add: normalize_edges_alt)

lemma normalize_shift_normalize:
  "normalize_edges (map shift_edge (normalize_edges es)) = normalize_edges (map shift_edge es)"
  by (rule normalize_edges_cong)
     (simp add: mset_normalize_edges multiset.map_comp comp_def order_shift_order)

lemma order_edge_idem: "order_edge (order_edge e) = order_edge e"
  by (simp add: order_edge_def)

lemma normalize_idem: "normalize_edges (normalize_edges es) = normalize_edges es"
  by (rule normalize_edges_cong)
     (simp add: mset_normalize_edges multiset.map_comp comp_def order_edge_idem)

lemma mset_flatten: "mset (flatten es) = (\<Sum>e\<in>#mset es. {#fst e, snd e#})"
  by (induction es) (auto simp: flatten_def)

lemma mset_flatten_normalize: "mset (flatten (normalize_edges es)) = mset (flatten es)"
proof -
  have "(\<lambda>e. {#fst (order_edge e), snd (order_edge e)#}) = (\<lambda>e. {#fst e, snd e#})"
    by (auto simp: order_edge_def min_def max_def fun_eq_iff)
  then show ?thesis
    by (simp add: mset_flatten mset_normalize_edges multiset.map_comp comp_def)
qed

lemma mset_flatten_shift:
  "mset (flatten (map shift_edge es)) = image_mset (\<lambda>p. (p + 2) mod 8) (mset (flatten es))"
  by (induction es) (auto simp: flatten_def shift_edge_def)

lemma sort_eq_iff_mset:
  fixes xs ys :: "'a::linorder list"
  assumes "sorted ys"
  shows "sort xs = ys \<longleftrightarrow> mset xs = mset ys"
proof
  assume "sort xs = ys"
  then have "mset (sort xs) = mset ys" by simp
  then show "mset xs = mset ys" by simp
next
  assume "mset xs = mset ys"
  then show "sort xs = ys"
    using assms by (intro properties_for_sort) simp_all
qed

lemma sort_flatten_iff:
  "sort (flatten es) = [0, 1, 2, 3, 4, 5, 6, 7] \<longleftrightarrow> mset (flatten es) = mset [0, 1, 2, 3, 4, 5, 6, 7::nat]"
  by (rule sort_eq_iff_mset) simp

lemma Tile_init_iff:
  "Tile_init es = Some t \<longleftrightarrow>
     length es = 4 \<and> mset (flatten es) = mset [0, 1, 2, 3, 4, 5, 6, 7::nat] \<and> normalize_edges es = t"
  unfolding Tile_init_def sort_flatten_iff by auto

lemma valid_tile_iff:
  "valid_tile t \<longleftrightarrow>
     length t = 4 \<and> mset (flatten t) = mset [0, 1, 2, 3, 4, 5, 6, 7::nat] \<and> normalize_edges t = t"
  unfolding valid_tile_def Tile_init_iff ..

lemma Tile_init_valid: "Tile_init es = Some t \<Longrightarrow> valid_tile t"
  unfolding valid_tile_iff Tile_init_iff
  using length_normalize_edges mset_flatten_normalize normalize_idem by metis

lemma set_flatten: "set (flatten es) = fst ` set es \<union> snd ` set es"
  by (induction es) (auto simp: flatten_def)

lemma valid_tile_ports: "valid_tile t \<Longrightarrow> e \<in> set t \<Longrightarrow> fst e < 8 \<and> snd e < 8"
proof -
  assume v: "valid_tile t" and e: "e \<in> set t"
  have "fst e \<in> set (flatten t)" "snd e \<in> set (flatten t)"
    using e by (auto simp: set_flatten)
  moreover have "mset (flatten t) = mset [0, 1, 2, 3, 4, 5, 6, 7::nat]"
    using v unfolding valid_tile_iff by blast
  then have "set_mset (mset (flatten t)) = set_mset (mset [0, 1, 2, 3, 4, 5, 6, 7::nat])"
    by (rule arg_cong)
  then have "set (flatten t) = {0, 1, 2, 3, 4, 5, 6, 7::nat}"
    by (simp only: set_mset_mset list.set)
  ultimately have "fst e \<in> {0, 1, 2, 3, 4, 5, 6, 7::nat}" "snd e \<in> {0, 1, 2, 3, 4, 5, 6, 7::nat}"
    by simp_all
  then show ?thesis by auto
qed

lemma rotate_valid: "valid_tile t \<Longrightarrow> rotate_tile t = Some (rot t)"
proof -
  assume v: "valid_tile t"
  have eq: "(\<lambda>(port1, port2). ((port1 + 2) mod 8, (port2 + 2) mod 8)) = shift_edge"
    by (auto simp: shift_edge_def fun_eq_iff)
  have "map (\<lambda>p. (p + 2) mod 8) [0, 1, 2, 3, 4, 5, 6, 7::nat] = rotate1 (rotate1 [0, 1, 2, 3, 4, 5, 6, 7])"
    by simp
  then have "image_mset (\<lambda>p. (p + 2) mod 8) (mset [0, 1, 2, 3, 4, 5, 6, 7::nat]) = mset [0, 1, 2, 3, 4, 5, 6, 7]"
    unfolding mset_map [symmetric] by (simp only: rotate1.simps mset_append append.simps mset.simps)  (simp add: ac_simps)
  then have "mset (flatten (map shift_edge t)) = mset [0, 1, 2, 3, 4, 5, 6, 7::nat]"
    using v unfolding mset_flatten_shift valid_tile_iff by simp
  moreover have "length t = 4" using v by (simp add: valid_tile_iff)
  ultimately show ?thesis
    unfolding rotate_tile_def eq Tile_init_iff rot_def by simp
qed

lemma valid_rot: "valid_tile t \<Longrightarrow> valid_tile (rot t)"
  using rotate_valid [of t] by (auto simp: rotate_tile_def dest: Tile_init_valid)

lemma shift4: "fst e < 8 \<Longrightarrow> snd e < 8 \<Longrightarrow> shift_edge (shift_edge (shift_edge (shift_edge e))) = e"
  by (cases e) (auto simp: shift_edge_def mod_simps)

lemma rot4: "valid_tile t \<Longrightarrow> rot (rot (rot (rot t))) = t"
proof -
  assume v: "valid_tile t"
  have "rot (rot (rot (rot t))) =
        normalize_edges (map shift_edge (map shift_edge (map shift_edge (map shift_edge t))))"
    unfolding rot_def normalize_shift_normalize ..
  also have "map shift_edge (map shift_edge (map shift_edge (map shift_edge t))) = t"
    using valid_tile_ports [OF v] by (simp add: map_idI shift4)
  finally show ?thesis using v by (simp add: valid_tile_iff)
qed

lemma to_key_valid:
  assumes "valid_tile t"
  shows "to_key t = Some (sort [t, rot t, rot (rot t), rot (rot (rot t))])"
  using assms valid_rot [of t] valid_rot [of "rot t"]
  by (simp add: to_key_def rotate_valid)

lemma sort4_cycle:
  fixes a :: "'a::linorder"
  shows "sort [b, c, d, a] = sort [a, b, c, d]"
proof -
  have "mset [b, c, d, a] = mset [a, b, c, d]" by (simp add: ac_simps)
  then show ?thesis by (metis sorted_list_of_multiset_mset)
qed

lemma to_key_rot: "valid_tile t \<Longrightarrow> to_key (rot t) = to_key t"
proof -
  assume v: "valid_tile t"
  have "to_key (rot t) = Some (sort [rot t, rot (rot t), rot (rot (rot t)), t])"
    using to_key_valid [OF valid_rot [OF v]] rot4 [OF v] by simp
  then show ?thesis using to_key_valid [OF v] by (simp only: sort4_cycle)
qed

lemma tile_eq_key: "valid_tile t \<Longrightarrow> to_key u = to_key t \<Longrightarrow> tile_eq t u = Some True"
  by (simp add: tile_eq_def to_key_valid)

lemma tile_eq_key_sym: "valid_tile t \<Longrightarrow> to_key u = to_key t \<Longrightarrow> tile_eq u t = Some True"
  by (simp add: tile_eq_def to_key_valid)

subsection \<open>Rotation invariance of tile equality\<close>

text \<open>
  C4 (amended). For every valid tile \<open>t\<close> the successive rotations exist (the
  constructor's assertions hold each time), \<open>all_rotations\<close> returns \<open>t\<close>, \<open>rotate(t)\<close>,
  \<open>rotate(rotate(t))\<close> and \<open>rotate(rotate(rotate(t)))\<close> in this order, and these four are
  equal under \<open>Tile.__eq__\<close>, which compares tiles modulo rotation. Their raw edge lists
  are pairwise distinct exactly when a half turn changes the edge list of \<open>t\<close>, that is
  when shifting every port of \<open>t\<close> by two, twice, and normalising does not give \<open>t\<close> back;
  for a tile that a half turn maps to itself the rotations coincide in pairs.
\<close>

theorem tile_rotation_invariance:
  assumes "valid_tile t"
  shows "\<exists>t1 t2 t3. rotate_tile t = Some t1 \<and> rotate_tile t1 = Some t2 \<and> rotate_tile t2 = Some t3
     \<and> all_rotations t = Some [t, t1, t2, t3]
     \<and> tile_eq t t1 = Some True \<and> tile_eq t1 t2 = Some True \<and> tile_eq t2 t3 = Some True
     \<and> tile_eq t t2 = Some True \<and> tile_eq t t3 = Some True
     \<and> (distinct [t, t1, t2, t3] \<longleftrightarrow> rot (rot t) \<noteq> t)"
proof -
  let ?t1 = "rot t" and ?t2 = "rot (rot t)" and ?t3 = "rot (rot (rot t))"
  have v1: "valid_tile ?t1" and v2: "valid_tile ?t2" and v3: "valid_tile ?t3"
    using assms by (simp_all add: valid_rot)
  have k1: "to_key ?t1 = to_key t" using assms by (rule to_key_rot)
  have k2: "to_key ?t2 = to_key t" using to_key_rot [OF v1] k1 by simp
  have k3: "to_key ?t3 = to_key t" using to_key_rot [OF v2] k2 by simp
  have r: "rotate_tile t = Some ?t1" "rotate_tile ?t1 = Some ?t2" "rotate_tile ?t2 = Some ?t3"
    using assms v1 v2 by (simp_all add: rotate_valid)
  have r4: "rot ?t3 = t" using assms by (rule rot4)
  have r3: "rotate_tile ?t3 = Some t" using rotate_valid [OF v3] r4 by simp
  have ar: "all_rotations t = Some [t, ?t1, ?t2, ?t3]"
    by (simp only: all_rotations_def r r3 option.case)
  have e: "tile_eq t ?t1 = Some True" "tile_eq t ?t2 = Some True" "tile_eq t ?t3 = Some True"
    using assms k1 k2 k3 by (simp_all add: tile_eq_key)
  have e12: "tile_eq ?t1 ?t2 = Some True" using v1 k1 k2 by (simp add: tile_eq_key)
  have e23: "tile_eq ?t2 ?t3 = Some True" using v2 k2 k3 by (simp add: tile_eq_key)
  have d: "distinct [t, ?t1, ?t2, ?t3] \<longleftrightarrow> ?t2 \<noteq> t"
  proof
    assume "distinct [t, ?t1, ?t2, ?t3]"
    then show "?t2 \<noteq> t" by auto
  next
    assume h: "?t2 \<noteq> t"
    have a: "t \<noteq> ?t1" using h by metis
    have b: "t \<noteq> ?t3" using a r4 by metis
    have c: "?t1 \<noteq> ?t3" using h r4 by metis
    have "?t2 \<noteq> ?t3" using b r4 by metis
    moreover have "?t1 \<noteq> ?t2" using calculation by metis
    ultimately show "distinct [t, ?t1, ?t2, ?t3]" using h a b c by auto
  qed
  show ?thesis
    using r ar e e12 e23 d by blast
qed

theorem tile_rotation_invariance_witness:
  "valid_tile [(0, 2), (1, 6), (3, 5), (4, 7)]
   \<and> rot (rot [(0, 2), (1, 6), (3, 5), (4, 7)]) \<noteq> [(0, 2), (1, 6), (3, 5), (4, 7)]
   \<and> (\<exists>t1 t2 t3. all_rotations [(0, 2), (1, 6), (3, 5), (4, 7)]
          = Some [[(0, 2), (1, 6), (3, 5), (4, 7)], t1, t2, t3]
      \<and> distinct [[(0, 2), (1, 6), (3, 5), (4, 7)], t1, t2, t3]
      \<and> tile_eq [(0, 2), (1, 6), (3, 5), (4, 7)] t1 = Some True
      \<and> tile_eq [(0, 2), (1, 6), (3, 5), (4, 7)] t2 = Some True
      \<and> tile_eq [(0, 2), (1, 6), (3, 5), (4, 7)] t3 = Some True)"
proof -
  have v: "valid_tile [(0, 2), (1, 6), (3, 5), (4, 7)]"
    by (simp add: valid_tile_def Tile_init_def normalize_edges_def flatten_def)
  have h: "rot (rot [(0, 2), (1, 6), (3, 5), (4, 7)]) \<noteq> [(0, 2), (1, 6), (3, 5), (4, 7)]"
    by (simp add: rot_def normalize_edges_def shift_edge_def)
  show ?thesis using v h tile_rotation_invariance [OF v] by blast
qed

text \<open>
  The tile whose ports are joined pairwise along each side is valid and all four of its
  rotations have the same raw edge list, so the rotations of a valid tile are not always
  pairwise distinct as edge lists (the repository's \<open>test_rotate_simple\<close> asserts the same).
  A half turn maps this tile to itself.
\<close>

theorem rotations_not_distinct_counterexample:
  "valid_tile [(0, 1), (2, 3), (4, 5), (6, 7)] \<and>
   all_rotations [(0, 1), (2, 3), (4, 5), (6, 7)] =
     Some [[(0, 1), (2, 3), (4, 5), (6, 7)], [(0, 1), (2, 3), (4, 5), (6, 7)],
           [(0, 1), (2, 3), (4, 5), (6, 7)], [(0, 1), (2, 3), (4, 5), (6, 7)]]"
proof -
  have r: "rotate_tile [(0, 1), (2, 3), (4, 5), (6, 7)] = Some [(0, 1), (2, 3), (4, 5), (6, 7)]"
    by (simp add: rotate_tile_def Tile_init_def normalize_edges_def flatten_def)
  have v: "valid_tile [(0, 1), (2, 3), (4, 5), (6, 7)]"
    by (simp add: valid_tile_def Tile_init_def normalize_edges_def flatten_def)
  show ?thesis by (simp only: all_rotations_def r option.case v simp_thms)
qed

section \<open>Properties of board states\<close>

lemma valid_pos_iff:
  "valid_pos p \<longleftrightarrow> 0 \<le> pos_x p \<and> pos_x p \<le> 9 \<and> 0 \<le> pos_y p \<and> pos_y p \<le> 9"
  by (cases p) (auto simp: valid_pos_def BoardPosition_init_def)

lemma BoardPosition_init_Some:
  "BoardPosition_init x y = Some q \<longleftrightarrow> 0 \<le> x \<and> x \<le> 9 \<and> 0 \<le> y \<and> y \<le> 9 \<and> q = BoardPosition x y"
  by (auto simp: BoardPosition_init_def)

lemma BoardPosition_init_None:
  "BoardPosition_init x y = None \<longleftrightarrow> \<not> (0 \<le> x \<and> x \<le> 9 \<and> 0 \<le> y \<and> y \<le> 9)"
  by (auto simp: BoardPosition_init_def)

lemma tile_present_at_valid:
  "0 \<le> x \<Longrightarrow> x \<le> 9 \<Longrightarrow> 0 \<le> y \<Longrightarrow> y \<le> 9 \<Longrightarrow>
   tile_present_at s x y = Ok (get_tile s (BoardPosition x y) \<noteq> None)"
  by (simp add: tile_present_at_def BoardPosition_init_def)

lemma neighbour_cases:
  "\<bar>pos_x q - pos_x p\<bar> + \<bar>pos_y q - pos_y p\<bar> = 1 \<longleftrightarrow>
     q = BoardPosition (pos_x p) (pos_y p - 1) \<or> q = BoardPosition (pos_x p - 1) (pos_y p)
     \<or> q = BoardPosition (pos_x p) (pos_y p + 1) \<or> q = BoardPosition (pos_x p + 1) (pos_y p)"
  by (cases q) (auto simp: abs_if split: if_splits)

lemma neighbour_occupied_iff:
  "neighbour_occupied s p \<longleftrightarrow>
     (valid_pos (BoardPosition (pos_x p) (pos_y p - 1))
        \<and> get_tile s (BoardPosition (pos_x p) (pos_y p - 1)) \<noteq> None)
     \<or> (valid_pos (BoardPosition (pos_x p - 1) (pos_y p))
        \<and> get_tile s (BoardPosition (pos_x p - 1) (pos_y p)) \<noteq> None)
     \<or> (valid_pos (BoardPosition (pos_x p) (pos_y p + 1))
        \<and> get_tile s (BoardPosition (pos_x p) (pos_y p + 1)) \<noteq> None)
     \<or> (valid_pos (BoardPosition (pos_x p + 1) (pos_y p))
        \<and> get_tile s (BoardPosition (pos_x p + 1) (pos_y p)) \<noteq> None)"
  unfolding neighbour_occupied_def neighbour_cases by blast

lemma probe_up:
  "valid_pos p \<Longrightarrow>
   (if pos_y p - 1 \<ge> 0 then tile_present_at s (pos_x p) (pos_y p - 1) else Ok False)
     = Ok (valid_pos (BoardPosition (pos_x p) (pos_y p - 1))
             \<and> get_tile s (BoardPosition (pos_x p) (pos_y p - 1)) \<noteq> None)"
  by (auto simp: valid_pos_iff tile_present_at_def BoardPosition_init_def)

lemma probe_left:
  "valid_pos p \<Longrightarrow>
   (if pos_x p - 1 \<ge> 0 then tile_present_at s (pos_x p - 1) (pos_y p) else Ok False)
     = Ok (valid_pos (BoardPosition (pos_x p - 1) (pos_y p))
             \<and> get_tile s (BoardPosition (pos_x p - 1) (pos_y p)) \<noteq> None)"
  by (auto simp: valid_pos_iff tile_present_at_def BoardPosition_init_def)

lemma probe_down:
  "valid_pos p \<Longrightarrow>
   (if pos_y p + 1 \<le> 9 then tile_present_at s (pos_x p) (pos_y p + 1) else Ok False)
     = Ok (valid_pos (BoardPosition (pos_x p) (pos_y p + 1))
             \<and> get_tile s (BoardPosition (pos_x p) (pos_y p + 1)) \<noteq> None)"
  by (auto simp: valid_pos_iff tile_present_at_def BoardPosition_init_def)

lemma probe_right:
  "valid_pos p \<Longrightarrow>
   (if pos_x p + 1 \<le> 9 then tile_present_at s (pos_x p + 1) (pos_y p) else Ok False)
     = Ok (valid_pos (BoardPosition (pos_x p + 1) (pos_y p))
             \<and> get_tile s (BoardPosition (pos_x p + 1) (pos_y p)) \<noteq> None)"
  by (auto simp: valid_pos_iff tile_present_at_def BoardPosition_init_def)

lemma surrounding_positions_are_empty_valid:
  assumes "valid_pos p"
  shows "surrounding_positions_are_empty s p = Ok (\<not> neighbour_occupied s p)"
  unfolding surrounding_positions_are_empty_def neighbour_occupied_iff
    probe_up [OF assms] probe_left [OF assms] probe_down [OF assms] probe_right [OF assms]
  by (simp split: bool.splits)

lemma is_valid_initial_position_valid:
  assumes "valid_pos p"
  shows "is_valid_initial_position s p =
     (if get_tile s p \<noteq> None then Error (TileAlreadyAtPosition p)
      else if \<not> is_edge p then Error (NotOnEdge p)
      else if neighbour_occupied s p then Error (SurroundingNotEmpty p)
      else Ok ())"
  by (simp add: is_valid_initial_position_def surrounding_positions_are_empty_valid [OF assms])

lemma is_edge_iff: "is_edge p \<longleftrightarrow> pos_x p = 0 \<or> pos_x p = 9 \<or> pos_y p = 0 \<or> pos_y p = 9"
  by (auto simp: is_edge_def)

lemma validate_initial_move_folded:
  assumes "valid_pos (im_pos move)"
  shows "(validate_initial_move self move = Ok () \<or> (\<exists>e. validate_initial_move self move = Error e))
    \<and> ((\<exists>e. validate_initial_move self move = Error e) \<longleftrightarrow>
         live_players (board_state self) (im_player move) \<noteq> None
         \<or> get_tile (board_state self) (im_pos move) \<noteq> None
         \<or> \<not> is_edge (im_pos move)
         \<or> neighbour_occupied (board_state self) (im_pos move)
         \<or> \<not> port_faces_interior (board_state self) (im_pos move) (im_port move))"
  unfolding validate_initial_move_def is_valid_initial_port_def
    is_valid_initial_position_valid [OF assms]
  by simp

text \<open>
  C5 (amended). For a move whose position is a position of the board,
  \<open>Board.validate_initial_move\<close> returns either ok or an error, and it returns an error
  exactly when the agent is already live, or the target cell holds a tile, or the target is
  not on the edge, or one of its four cardinal neighbours holds a tile, or the chosen port
  does not face the interior of the board.
\<close>

theorem validate_initial_move_cases:
  assumes "valid_pos (im_pos move)"
  shows "(validate_initial_move self move = Ok () \<or> (\<exists>e. validate_initial_move self move = Error e))
    \<and> ((\<exists>e. validate_initial_move self move = Error e) \<longleftrightarrow>
         live_players (board_state self) (im_player move) \<noteq> None
         \<or> get_tile (board_state self) (im_pos move) \<noteq> None
         \<or> \<not> (pos_x (im_pos move) = 0 \<or> pos_x (im_pos move) = 9
               \<or> pos_y (im_pos move) = 0 \<or> pos_y (im_pos move) = 9)
         \<or> (\<exists>q. valid_pos q
               \<and> \<bar>pos_x q - pos_x (im_pos move)\<bar> + \<bar>pos_y q - pos_y (im_pos move)\<bar> = 1
               \<and> get_tile (board_state self) q \<noteq> None)
         \<or> \<not> port_faces_interior (board_state self) (im_pos move) (im_port move))"
  using validate_initial_move_folded [OF assms, of self]
  unfolding is_edge_iff neighbour_occupied_def .

theorem validate_initial_move_cases_witness:
  "valid_pos (BoardPosition 0 3)
   \<and> validate_initial_move (Board_init BoardState_init)
        (InitialMove (BoardPosition 0 3) [(0, 1), (2, 3), (4, 5), (6, 7)] 2 White) = Ok ()"
proof -
  have v: "valid_pos (im_pos (InitialMove (BoardPosition 0 3) [(0, 1), (2, 3), (4, 5), (6, 7)] 2 White))"
    by (simp add: valid_pos_def BoardPosition_init_def)
  show ?thesis
    using v validate_initial_move_cases [OF v, of "Board_init BoardState_init"]
    by (auto simp: Board_init_def BoardState_init_def get_tile_def port_faces_interior_def)
qed

text \<open>
  On the empty board, an initial move to the corner (0, 0) on the port \<open>LeftTop\<close> is
  rejected although the agent is not live, the cell is free, the position is on the edge
  and all neighbours are empty: the port faces the outside.
\<close>

theorem validate_initial_move_port_counterexample:
  "validate_initial_move (Board_init BoardState_init)
      (InitialMove (BoardPosition 0 0) [(0, 1), (2, 3), (4, 5), (6, 7)] 7 White)
     = Error (PortNotFacingInterior (BoardPosition 0 0) 7)
   \<and> live_players (board_state (Board_init BoardState_init)) White = None
   \<and> get_tile (board_state (Board_init BoardState_init)) (BoardPosition 0 0) = None
   \<and> is_edge (BoardPosition 0 0)
   \<and> surrounding_positions_are_empty (board_state (Board_init BoardState_init)) (BoardPosition 0 0)
       = Ok True"
  by (simp add: validate_initial_move_def is_valid_initial_port_def is_valid_initial_position_def
      surrounding_positions_are_empty_def tile_present_at_def BoardPosition_init_def
      Board_init_def BoardState_init_def get_tile_def is_edge_def port_faces_interior_def)

subsection \<open>Snapshots are never mutated\<close>

text \<open>
  C7. Let \<open>self\<close> be a \<open>BoardState\<close> object of the store with no tile at \<open>p\<close>. Then
  \<open>with_tile\<close> returns a new object, different from \<open>self\<close>, in which \<open>get_tile(p)\<close> is
  the tile; \<open>self\<close> still has no tile at \<open>p\<close> and the same live players; and neither
  \<open>with_tile\<close> nor \<open>with_live_players\<close> changes any object that was in the store before
  the call. The new objects hold the values computed by the functions \<open>with_tile\<close> and
  \<open>with_live_players\<close> on values.
\<close>

theorem with_tile_snapshot_immutability:
  assumes "self < length h" and "get_tile (h ! self) p = None"
  shows "get_tile (snd (with_tile_obj h self t p) ! fst (with_tile_obj h self t p)) p = Some t
    \<and> snd (with_tile_obj h self t p) ! fst (with_tile_obj h self t p) = with_tile (h ! self) t p
    \<and> fst (with_tile_obj h self t p) \<noteq> self
    \<and> get_tile (snd (with_tile_obj h self t p) ! self) p = None
    \<and> live_players (snd (with_tile_obj h self t p) ! self) = live_players (h ! self)
    \<and> (\<forall>r < length h. snd (with_tile_obj h self t p) ! r = h ! r)
    \<and> (\<forall>r < length h. snd (with_live_players_obj h self lp) ! r = h ! r)
    \<and> snd (with_live_players_obj h self lp) ! fst (with_live_players_obj h self lp)
        = with_live_players (h ! self) lp"
  using assms
  by (auto simp: with_tile_obj_def with_live_players_obj_def with_change_obj_def
      alloc_BoardState_def Let_def get_tile_def nth_append with_tile_def with_live_players_def
      with_change_def BoardState_init_def)

theorem with_tile_snapshot_immutability_witness:
  "(0::nat) < length [BoardState_init] \<and> get_tile ([BoardState_init] ! 0) (BoardPosition 2 3) = None
   \<and> get_tile (snd (with_tile_obj [BoardState_init] 0 [(0, 1), (2, 3), (4, 5), (6, 7)]
          (BoardPosition 2 3))
        ! fst (with_tile_obj [BoardState_init] 0 [(0, 1), (2, 3), (4, 5), (6, 7)]
          (BoardPosition 2 3))) (BoardPosition 2 3) = Some [(0, 1), (2, 3), (4, 5), (6, 7)]
   \<and> get_tile (snd (with_tile_obj [BoardState_init] 0 [(0, 1), (2, 3), (4, 5), (6, 7)]
          (BoardPosition 2 3)) ! 0) (BoardPosition 2 3) = None"
proof -
  have a: "(0::nat) < length [BoardState_init]" by simp
  have b: "get_tile ([BoardState_init] ! 0) (BoardPosition 2 3) = None"
    by (simp add: get_tile_def BoardState_init_def)
  show ?thesis
    using a b with_tile_snapshot_immutability [OF a b, of "[(0, 1), (2, 3), (4, 5), (6, 7)]"]
    by (simp add: with_tile_def with_change_def get_tile_def)
qed

section \<open>Properties of the board operations\<close>

subsection \<open>Field access\<close>

lemma with_live_players_simps [simp]:
  "board (with_live_players s lp) = board s"
  "live_players (with_live_players s lp) = lp"
  by (simp_all add: with_live_players_def with_change_def)

lemma with_tile_simps [simp]:
  "board (with_tile s t p) = (board s)(p \<mapsto> t)"
  "live_players (with_tile s t p) = live_players s"
  by (simp_all add: with_tile_def with_change_def)

lemma notify_simps [simp]:
  "board_state (notify_entered_loop self c) = board_state self"
  "board_state (notify_exited_board self c) = board_state self"
  "observers (notify_entered_loop self c) = map (\<lambda>ob. player_entered_loop ob c) (observers self)"
  "observers (notify_exited_board self c) = map (\<lambda>ob. player_exited_board ob c) (observers self)"
  by (simp_all add: notify_entered_loop_def notify_exited_board_def)

lemma get_position_of_player_live:
  "get_position_of_player s c = Ok pp \<longleftrightarrow> live_players s c = Some pp"
  by (simp add: get_position_of_player_def split: option.splits)

lemma get_position_of_player_not_Raised [simp]:
  "get_position_of_player s c \<noteq> Raised x"
  by (simp add: get_position_of_player_def split: option.splits)

lemma get_position_of_player_Error:
  "get_position_of_player s c = Error e \<Longrightarrow> live_players s c = None"
  by (simp add: get_position_of_player_def split: option.splits)

subsection \<open>The decorator\<close>

lemma atomic_error:
  "atomic func self = (Error e, self') \<Longrightarrow> board_state self' = board_state self"
  by (auto simp: atomic_def Let_def split: prod.splits if_splits)

lemma atomic_not_error:
  "\<not> is_error (fst (func self)) \<Longrightarrow> atomic func self = func self"
  by (auto simp: atomic_def Let_def split: prod.splits)

subsection \<open>Ports and positions\<close>

lemma port_cases:
  "q < 8 \<longleftrightarrow> q = 0 \<or> q = 1 \<or> q = 2 \<or> q = 3 \<or> q = 4 \<or> q = 5 \<or> q = 6 \<or> q = (7::nat)"
  by arith

lemma get_adjoining_port_lt8: "q < 8 \<Longrightarrow> \<exists>q'. get_adjoining_port q = Some q' \<and> q' < 8"
  unfolding port_cases by (auto simp: get_adjoining_port_def)

lemma get_port_connected_to_Some:
  "get_port_connected_to t q = Some q' \<Longrightarrow> q' \<in> set (flatten t)"
  unfolding set_flatten by (induction t) (auto split: if_splits)

lemma get_port_connected_to_None:
  "get_port_connected_to t q = None \<Longrightarrow> q \<notin> set (flatten t)"
  unfolding set_flatten by (induction t) (force split: if_splits)+

lemma valid_tile_set_flatten:
  assumes "valid_tile t"
  shows "set (flatten t) = {0, 1, 2, 3, 4, 5, 6, 7::nat}"
proof -
  have "mset (flatten t) = mset [0, 1, 2, 3, 4, 5, 6, 7::nat]"
    using assms unfolding valid_tile_iff by blast
  then have "set_mset (mset (flatten t)) = set_mset (mset [0, 1, 2, 3, 4, 5, 6, 7::nat])"
    by (rule arg_cong)
  then show ?thesis
    by (simp only: set_mset_mset list.set)
qed

lemma valid_tile_connected:
  assumes "valid_tile t" and "q < 8"
  shows "\<exists>q'. get_port_connected_to t q = Some q' \<and> q' < 8"
proof (cases "get_port_connected_to t q")
  case None
  then have "q \<notin> set (flatten t)" by (rule get_port_connected_to_None)
  moreover have "q \<in> {0, 1, 2, 3, 4, 5, 6, 7::nat}"
    using assms(2) unfolding port_cases by blast
  ultimately show ?thesis
    unfolding valid_tile_set_flatten [OF assms(1)] by blast
next
  case (Some q')
  then have "q' \<in> set (flatten t)" by (rule get_port_connected_to_Some)
  then have "q' \<in> {0, 1, 2, 3, 4, 5, 6, 7::nat}"
    unfolding valid_tile_set_flatten [OF assms(1)] .
  then have "q' < 8" unfolding port_cases by blast
  then show ?thesis using Some by simp
qed

lemma new_position_cases:
  "new_position x y = Raised ValueError \<and> \<not> (0 \<le> x \<and> x \<le> 9 \<and> 0 \<le> y \<and> y \<le> 9)
   \<or> new_position x y = Ok (Some (BoardPosition x y)) \<and> 0 \<le> x \<and> x \<le> 9 \<and> 0 \<le> y \<and> y \<le> 9"
  by (simp add: new_position_def BoardPosition_init_def)

lemma calculate_adjacent_Some_valid:
  assumes "calculate_adjacent_position_of_player s c = Ok (Some np)"
  shows "valid_pos np"
  using assms
  by (auto simp: calculate_adjacent_position_of_player_def get_position_of_player_def
      new_position_def BoardPosition_init_def valid_pos_def
      split: if_splits option.splits)

lemma calculate_adjacent_wf:
  assumes "live_players s c = Some (p, q)" and "valid_pos p" and "q < 8"
  shows "\<exists>r. calculate_adjacent_position_of_player s c = Ok r"
proof -
  have x: "0 \<le> pos_x p" "pos_x p \<le> 9" "0 \<le> pos_y p" "pos_y p \<le> 9"
    using assms(2) by (simp_all add: valid_pos_iff)
  show ?thesis
    using assms(1) assms(3) x unfolding port_cases
    by (auto simp: calculate_adjacent_position_of_player_def get_position_of_player_def
        new_position_def BoardPosition_init_def)
qed

subsection \<open>Following one path\<close>

lemma move_player_loop_cases [case_names dead seen edge empty raised step]:
  obtains
    (dead) e where "live_players (board_state self) player = None"
      and "move_player_loop self player seen = (Error (FailedToMovePlayer player e), self)"
      and "\<And>n. move_player_fuel (Suc n) self player seen
             = Some (Error (FailedToMovePlayer player e), self)"
  | (seen) p port where "live_players (board_state self) player = Some (p, port)"
      and "(p, port) \<in> seen"
      and "move_player_loop self player seen = (Ok True, notify_entered_loop self player)"
      and "\<And>n. move_player_fuel (Suc n) self player seen
             = Some (Ok True, notify_entered_loop self player)"
  | (edge) p port where "live_players (board_state self) player = Some (p, port)"
      and "(p, port) \<notin> seen"
      and "calculate_adjacent_position_of_player (board_state self) player = Ok None"
      and "move_player_loop self player seen = (Ok True, self)"
      and "\<And>n. move_player_fuel (Suc n) self player seen = Some (Ok True, self)"
  | (empty) p port np where "live_players (board_state self) player = Some (p, port)"
      and "(p, port) \<notin> seen"
      and "calculate_adjacent_position_of_player (board_state self) player = Ok (Some np)"
      and "get_tile (board_state self) np = None"
      and "move_player_loop self player seen = (Ok False, self)"
      and "\<And>n. move_player_fuel (Suc n) self player seen = Some (Ok False, self)"
  | (raised) p port x where "live_players (board_state self) player = Some (p, port)"
      and "(p, port) \<notin> seen"
      and "move_player_loop self player seen = (Raised x, self)"
      and "\<And>n. move_player_fuel (Suc n) self player seen = Some (Raised x, self)"
      and "(\<forall>r. calculate_adjacent_position_of_player (board_state self) player \<noteq> Ok r)
           \<or> (\<exists>np t. calculate_adjacent_position_of_player (board_state self) player = Ok (Some np)
                 \<and> get_tile (board_state self) np = Some t
                 \<and> (\<forall>q q'. get_adjoining_port port = Some q
                        \<longrightarrow> get_port_connected_to t q \<noteq> Some q'))"
  | (step) p port np t q q' where "live_players (board_state self) player = Some (p, port)"
      and "(p, port) \<notin> seen"
      and "calculate_adjacent_position_of_player (board_state self) player = Ok (Some np)"
      and "get_tile (board_state self) np = Some t"
      and "get_adjoining_port port = Some q"
      and "get_port_connected_to t q = Some q'"
      and "move_player_loop self player seen =
             move_player_loop
               (self\<lparr>board_state := with_live_players (board_state self)
                    ((live_players (board_state self))(player \<mapsto> (np, q')))\<rparr>)
               player (insert (p, port) seen)"
      and "\<And>n. move_player_fuel (Suc n) self player seen =
             move_player_fuel n
               (self\<lparr>board_state := with_live_players (board_state self)
                    ((live_players (board_state self))(player \<mapsto> (np, q')))\<rparr>)
               player (insert (p, port) seen)"
proof (cases "live_players (board_state self) player")
  case None
  have a: "move_player_loop self player seen
      = (Error (FailedToMovePlayer player (PlayerNotOnBoard player)), self)"
    using None by (subst move_player_loop.simps) (simp add: get_position_of_player_def)
  have b: "\<And>n. move_player_fuel (Suc n) self player seen
      = Some (Error (FailedToMovePlayer player (PlayerNotOnBoard player)), self)"
    using None by (simp add: get_position_of_player_def)
  show ?thesis by (rule dead [OF None a b])
next
  case (Some pp)
  obtain p port where pp: "pp = (p, port)" by (cases pp)
  have lp: "live_players (board_state self) player = Some (p, port)"
    using Some pp by simp
  have gp: "get_position_of_player (board_state self) player = Ok (p, port)"
    using lp by (simp add: get_position_of_player_def)
  show ?thesis
  proof (cases "(p, port) \<in> seen")
    case True
    have a: "move_player_loop self player seen = (Ok True, notify_entered_loop self player)"
      using gp True by (subst move_player_loop.simps) simp
    have b: "\<And>n. move_player_fuel (Suc n) self player seen
        = Some (Ok True, notify_entered_loop self player)"
      using gp True by simp
    show ?thesis by (rule seen [OF lp True a b])
  next
    case False
    note notseen = False
    show ?thesis
    proof (cases "calculate_adjacent_position_of_player (board_state self) player")
      case (Error e)
      have a: "move_player_loop self player seen = (Raised TypeError, self)"
        using gp notseen Error by (subst move_player_loop.simps) simp
      have b: "\<And>n. move_player_fuel (Suc n) self player seen = Some (Raised TypeError, self)"
        using gp notseen Error by simp
      show ?thesis by (rule raised [OF lp notseen a b]) (simp add: Error)
    next
      case (Raised x)
      have a: "move_player_loop self player seen = (Raised x, self)"
        using gp notseen Raised by (subst move_player_loop.simps) simp
      have b: "\<And>n. move_player_fuel (Suc n) self player seen = Some (Raised x, self)"
        using gp notseen Raised by simp
      show ?thesis by (rule raised [OF lp notseen a b]) (simp add: Raised)
    next
      case adj: (Ok r)
      show ?thesis
      proof (cases r)
        case None
        note adj' = adj [unfolded None]
        have a: "move_player_loop self player seen = (Ok True, self)"
          using gp notseen adj' by (subst move_player_loop.simps) simp
        have b: "\<And>n. move_player_fuel (Suc n) self player seen = Some (Ok True, self)"
          using gp notseen adj' by simp
        show ?thesis by (rule edge [OF lp notseen adj' a b])
      next
        case (Some np)
        note adj' = adj [unfolded Some]
        show ?thesis
        proof (cases "get_tile (board_state self) np")
          case None
          have a: "move_player_loop self player seen = (Ok False, self)"
            using gp notseen adj' None by (subst move_player_loop.simps) simp
          have b: "\<And>n. move_player_fuel (Suc n) self player seen = Some (Ok False, self)"
            using gp notseen adj' None by simp
          show ?thesis by (rule empty [OF lp notseen adj' None a b])
        next
          case tl: (Some t)
          show ?thesis
          proof (cases "get_adjoining_port port")
            case None
            have a: "move_player_loop self player seen = (Raised ValueError, self)"
              using gp notseen adj' tl None by (subst move_player_loop.simps) simp
            have b: "\<And>n. move_player_fuel (Suc n) self player seen
                = Some (Raised ValueError, self)"
              using gp notseen adj' tl None by simp
            show ?thesis by (rule raised [OF lp notseen a b]) (simp add: adj' tl None)
          next
            case ap: (Some q)
            show ?thesis
            proof (cases "get_port_connected_to t q")
              case None
              have a: "move_player_loop self player seen = (Raised ValueError, self)"
                using gp notseen adj' tl ap None by (subst move_player_loop.simps) simp
              have b: "\<And>n. move_player_fuel (Suc n) self player seen
                  = Some (Raised ValueError, self)"
                using gp notseen adj' tl ap None by simp
              show ?thesis by (rule raised [OF lp notseen a b]) (simp add: adj' tl ap None)
            next
              case cp: (Some q')
              have a: "move_player_loop self player seen =
                  move_player_loop
                    (self\<lparr>board_state := with_live_players (board_state self)
                        ((live_players (board_state self))(player \<mapsto> (np, q')))\<rparr>)
                    player (insert (p, port) seen)"
                using gp notseen adj' tl ap cp by (subst move_player_loop.simps) simp
              have b: "\<And>n. move_player_fuel (Suc n) self player seen =
                  move_player_fuel n
                    (self\<lparr>board_state := with_live_players (board_state self)
                        ((live_players (board_state self))(player \<mapsto> (np, q')))\<rparr>)
                    player (insert (p, port) seen)"
                using gp notseen adj' tl ap cp by simp
              show ?thesis by (rule step [OF lp notseen adj' tl ap cp a b])
            qed
          qed
        qed
      qed
    qed
  qed
qed

subsection \<open>Atomicity of rejected moves\<close>

text \<open>
  C1. For every board, every iteration order of the live players and each of the three
  move operations \<open>initial_move\<close>, \<open>intermediate_move\<close> and
  \<open>place_tile_at_index_with_scissors\<close>: if the operation returns an error result, then the
  tile map and the live-player map of the board afterwards are equal to those before the
  call. The statement is about error results; an exception leaves the decorator without
  the state being put back.
\<close>

theorem rejected_move_leaves_board_state:
  "(initial_move keys_of self im = (Error e, self') \<longrightarrow>
      board (board_state self') = board (board_state self)
      \<and> live_players (board_state self') = live_players (board_state self))
   \<and> (intermediate_move keys_of self mv = (Error e, self') \<longrightarrow>
      board (board_state self') = board (board_state self)
      \<and> live_players (board_state self') = live_players (board_state self))
   \<and> (place_tile_at_index_with_scissors keys_of self t p = (Error e, self') \<longrightarrow>
      board (board_state self') = board (board_state self)
      \<and> live_players (board_state self') = live_players (board_state self))"
  unfolding initial_move_def intermediate_move_def place_tile_at_index_with_scissors_def
  by (auto dest: atomic_error)

text \<open>
  Three rejected calls on the empty board: an initial move in the middle of the board, an
  intermediate move of a player who is not on the board, and a tile placement during which
  the walk is asked to move a player who is not on the board, which fails after the tile has
  been written to the board state.
\<close>

theorem rejected_move_leaves_board_state_witness:
  "fst (initial_move keys_by_color (Board_init BoardState_init)
          (InitialMove (BoardPosition 5 5) [(0, 1), (2, 3), (4, 5), (6, 7)] 2 White))
     = Error (NotOnEdge (BoardPosition 5 5))
   \<and> board_state (snd (initial_move keys_by_color (Board_init BoardState_init)
          (InitialMove (BoardPosition 5 5) [(0, 1), (2, 3), (4, 5), (6, 7)] 2 White)))
     = BoardState_init
   \<and> fst (intermediate_move keys_by_color (Board_init BoardState_init)
          (IntermediateMove [(0, 1), (2, 3), (4, 5), (6, 7)] White))
     = Error (PlayerNotAlive White)
   \<and> board_state (snd (intermediate_move keys_by_color (Board_init BoardState_init)
          (IntermediateMove [(0, 1), (2, 3), (4, 5), (6, 7)] White)))
     = BoardState_init
   \<and> fst (place_tile_at_index_with_scissors (\<lambda>m. [White]) (Board_init BoardState_init)
          [(0, 1), (2, 3), (4, 5), (6, 7)] (BoardPosition 0 0))
     = Error (FailedToMovePlayer White (PlayerNotOnBoard White))
   \<and> board_state (snd (place_tile_at_index_with_scissors (\<lambda>m. [White])
          (Board_init BoardState_init) [(0, 1), (2, 3), (4, 5), (6, 7)] (BoardPosition 0 0)))
     = BoardState_init"
proof -
  let ?B = "Board_init BoardState_init"
  let ?T = "[(0, 1), (2, 3), (4, 5), (6, 7)] :: tile"
  let ?im = "InitialMove (BoardPosition 5 5) ?T 2 White"
  let ?mv = "IntermediateMove ?T White"
  have a: "fst (initial_move keys_by_color ?B ?im) = Error (NotOnEdge (BoardPosition 5 5))"
    by (simp add: initial_move_def atomic_def initial_move_body_def validate_initial_move_def
        is_valid_initial_position_def is_edge_def get_tile_def Board_init_def BoardState_init_def)
  have b: "fst (intermediate_move keys_by_color ?B ?mv) = Error (PlayerNotAlive White)"
    by (simp add: intermediate_move_def atomic_def intermediate_move_body_def
        validate_intermediate_move_def Board_init_def BoardState_init_def)
  have c: "fst (place_tile_at_index_with_scissors (\<lambda>m. [White]) ?B ?T (BoardPosition 0 0))
      = Error (FailedToMovePlayer White (PlayerNotOnBoard White))"
    by (simp add: place_tile_at_index_with_scissors_def atomic_def
        place_tile_at_index_with_scissors_body_def move_all_players_along_paths_def
        move_player_along_path_def move_player_loop.simps get_position_of_player_def
        Board_init_def BoardState_init_def)
  have a': "initial_move keys_by_color ?B ?im
      = (Error (NotOnEdge (BoardPosition 5 5)), snd (initial_move keys_by_color ?B ?im))"
    using a by (metis prod.collapse)
  have b': "intermediate_move keys_by_color ?B ?mv
      = (Error (PlayerNotAlive White), snd (intermediate_move keys_by_color ?B ?mv))"
    using b by (metis prod.collapse)
  have c': "place_tile_at_index_with_scissors (\<lambda>m. [White]) ?B ?T (BoardPosition 0 0)
      = (Error (FailedToMovePlayer White (PlayerNotOnBoard White)),
         snd (place_tile_at_index_with_scissors (\<lambda>m. [White]) ?B ?T (BoardPosition 0 0)))"
    using c by (metis prod.collapse)
  have s: "board_state ?B = BoardState_init" by (simp add: Board_init_def)
  have eqI: "\<And>x y :: BoardState. board x = board y \<and> live_players x = live_players y \<Longrightarrow> x = y"
    by simp
  show ?thesis
    using a b c
      rejected_move_leaves_board_state [of keys_by_color ?B ?im "NotOnEdge (BoardPosition 5 5)"
        "snd (initial_move keys_by_color ?B ?im)" ?mv ?T "BoardPosition 0 0"] a'
      rejected_move_leaves_board_state [of keys_by_color ?B ?im "PlayerNotAlive White"
        "snd (intermediate_move keys_by_color ?B ?mv)" ?mv ?T "BoardPosition 0 0"] b'
      rejected_move_leaves_board_state [of "\<lambda>m. [White]" ?B ?im
        "FailedToMovePlayer White (PlayerNotOnBoard White)"
        "snd (place_tile_at_index_with_scissors (\<lambda>m. [White]) ?B ?T (BoardPosition 0 0))"
        ?mv ?T "BoardPosition 0 0"] c'
    unfolding s by (auto intro: eqI)
qed

subsection \<open>What a walk changes\<close>

lemma logged_simps [simp]:
  "entered_loop (logged L X ob) = entered_loop ob @ L"
  "exited_board (logged L X ob) = exited_board ob @ X"
  "logged [] [] ob = ob"
  "logged L' X' (logged L X ob) = logged (L @ L') (X @ X') ob"
  "player_entered_loop ob c = logged [c] [] ob"
  "player_exited_board ob c = logged [] [c] ob"
  by (simp_all add: logged_def player_entered_loop_def player_exited_board_def)

lemma map_logged_nil [simp]: "map (logged [] []) obs = obs"
  by (induction obs) simp_all

lemma wf_board_stateD:
  "wf_board_state s \<Longrightarrow> live_players s c = Some (p, q) \<Longrightarrow> valid_pos p \<and> q < 8"
  "wf_board_state s \<Longrightarrow> board s p' = Some t \<Longrightarrow> valid_tile t"
  unfolding wf_board_state_def by blast+

lemma valid_tile_connected_lt8:
  assumes "valid_tile t" and "get_port_connected_to t q = Some q'"
  shows "q' < 8"
proof -
  have "q' \<in> set (flatten t)" using assms(2) by (rule get_port_connected_to_Some)
  then have "q' \<in> {0, 1, 2, 3, 4, 5, 6, 7::nat}"
    unfolding valid_tile_set_flatten [OF assms(1)] .
  then show ?thesis unfolding port_cases by blast
qed

lemma move_player_loop_frame:
  "move_player_loop self player seen = (r, self') \<Longrightarrow>
     board (board_state self') = board (board_state self)
   \<and> (\<forall>c. c \<noteq> player \<longrightarrow>
          live_players (board_state self') c = live_players (board_state self) c)
   \<and> (live_players (board_state self') player = None
          \<longleftrightarrow> live_players (board_state self) player = None)
   \<and> (observers self' = observers self
        \<or> (r = Ok True \<and> observers self' = map (logged [player] []) (observers self)))
   \<and> (live_players (board_state self) player = None \<longrightarrow> (\<exists>e. r = Error e))
   \<and> (wf_board_state (board_state self) \<longrightarrow>
         wf_board_state (board_state self')
         \<and> (live_players (board_state self) player \<noteq> None \<longrightarrow> (\<exists>b. r = Ok b)))"
proof (induction self player seen rule: move_player_loop.induct)
  case (1 self player seen)
  show ?case
  proof (cases rule: move_player_loop_cases [of self player seen])
    case (dead e)
    then show ?thesis using "1.prems" by auto
  next
    case (seen p port)
    then show ?thesis using "1.prems" by auto
  next
    case (edge p port)
    then show ?thesis using "1.prems" by auto
  next
    case (empty p port np)
    then show ?thesis using "1.prems" by auto
  next
    case (raised p port x)
    have "\<not> wf_board_state (board_state self)"
    proof
      assume wf: "wf_board_state (board_state self)"
      have v: "valid_pos p" "port < 8" using wf_board_stateD(1) [OF wf raised(1)] by simp_all
      obtain r0 where "calculate_adjacent_position_of_player (board_state self) player = Ok r0"
        using calculate_adjacent_wf [OF raised(1) v] by blast
      with raised(5) obtain np t where
        t: "get_tile (board_state self) np = Some t"
        and n: "\<forall>q q'. get_adjoining_port port = Some q \<longrightarrow> get_port_connected_to t q \<noteq> Some q'"
        by auto
      obtain q where q: "get_adjoining_port port = Some q" "q < 8"
        using get_adjoining_port_lt8 [OF v(2)] by blast
      have "valid_tile t" using wf t by (auto simp: get_tile_def dest: wf_board_stateD(2))
      then obtain q' where "get_port_connected_to t q = Some q'"
        using valid_tile_connected q(2) by blast
      with n q(1) show False by blast
    qed
    then show ?thesis using raised "1.prems" by auto
  next
    case (step p port np t q q')
    let ?self1 = "self\<lparr>board_state := with_live_players (board_state self)
        ((live_players (board_state self))(player \<mapsto> (np, q')))\<rparr>"
    have gp: "get_position_of_player (board_state self) player = Ok (p, port)"
      using step(1) by (simp add: get_position_of_player_def)
    have eq: "move_player_loop ?self1 player (insert (p, port) seen) = (r, self')"
      using step(7) "1.prems" by simp
    note ih = "1.IH" [OF gp refl step(2) step(3) refl step(4) step(5) step(6) eq]
    have wf1: "wf_board_state (board_state ?self1)" if wf: "wf_board_state (board_state self)"
    proof -
      have "valid_tile t" using wf step(4) by (auto simp: get_tile_def dest: wf_board_stateD(2))
      then have "q' < 8" using step(6) by (rule valid_tile_connected_lt8)
      moreover have "valid_pos np" using step(3) by (rule calculate_adjacent_Some_valid)
      ultimately show ?thesis
        using wf unfolding wf_board_state_def by auto
    qed
    show ?thesis using ih step(1) wf1 by auto
  qed
qed


lemma move_player_along_path_frame:
  assumes "move_player_along_path self player = (r, self')"
  shows "board (board_state self') = board (board_state self)"
    and "\<And>c. live_players (board_state self') c = None
            \<longleftrightarrow> live_players (board_state self) c = None"
    and "observers self' = observers self
        \<or> (r = Ok True \<and> observers self' = map (logged [player] []) (observers self))"
    and "wf_board_state (board_state self) \<Longrightarrow> wf_board_state (board_state self')"
    and "wf_board_state (board_state self) \<Longrightarrow>
         live_players (board_state self) player \<noteq> None \<Longrightarrow> \<exists>b. r = Ok b"
proof -
  note f = move_player_loop_frame [OF assms [unfolded move_player_along_path_def]]
  show "board (board_state self') = board (board_state self)" using f by blast
  show "live_players (board_state self') c = None
            \<longleftrightarrow> live_players (board_state self) c = None" for c
    using f by (cases "c = player") auto
  show "observers self' = observers self
        \<or> (r = Ok True \<and> observers self' = map (logged [player] []) (observers self))"
    using f by blast
  show "wf_board_state (board_state self) \<Longrightarrow> wf_board_state (board_state self')"
    using f by blast
  show "wf_board_state (board_state self) \<Longrightarrow>
         live_players (board_state self) player \<noteq> None \<Longrightarrow> \<exists>b. r = Ok b"
    using f by blast
qed

lemma move_players_frame:
  "move_players self ps tr = (r, self') \<Longrightarrow>
     board (board_state self') = board (board_state self)
   \<and> (\<forall>c. live_players (board_state self') c = None
          \<longleftrightarrow> live_players (board_state self) c = None)
   \<and> (\<exists>L. observers self' = map (logged L []) (observers self)
          \<and> set L \<subseteq> set ps \<and> (distinct ps \<longrightarrow> distinct L)
          \<and> (\<forall>T. r = Ok T \<longrightarrow>
                (\<exists>T'. T = tr @ T' \<and> set L \<subseteq> set T' \<and> set T' \<subseteq> set ps
                      \<and> (distinct ps \<longrightarrow> distinct T'))))
   \<and> (wf_board_state (board_state self) \<longrightarrow>
         wf_board_state (board_state self')
         \<and> (set ps \<subseteq> dom (live_players (board_state self)) \<longrightarrow> (\<exists>T. r = Ok T)))"
proof (induction ps arbitrary: self tr)
  case Nil
  then have "r = Ok tr" "self' = self" by simp_all
  then show ?case by (auto intro: exI [of _ "[]"])
next
  case (Cons p rest)
  obtain r1 s1 where m: "move_player_along_path self p = (r1, s1)"
    by (cases "move_player_along_path self p")
  note f = move_player_along_path_frame [OF m]
  show ?case
  proof (cases r1)
    case (Ok v)
    let ?tr1 = "if v then tr @ [p] else tr"
    have rec: "move_players s1 rest ?tr1 = (r, self')"
      using Cons.prems m Ok by simp
    note ih = Cons.IH [OF rec]
    from ih obtain L where
      L: "observers self' = map (logged L []) (observers s1)"
        "set L \<subseteq> set rest" "distinct rest \<longrightarrow> distinct L"
        "\<forall>T. r = Ok T \<longrightarrow>
           (\<exists>T'. T = ?tr1 @ T' \<and> set L \<subseteq> set T' \<and> set T' \<subseteq> set rest
                 \<and> (distinct rest \<longrightarrow> distinct T'))"
      by blast
    define L0 where "L0 = (if observers s1 = observers self then [] else [p])"
    have o1: "observers s1 = map (logged L0 []) (observers self)"
      using f(3) unfolding L0_def by auto
    have l0: "L0 = [] \<or> (L0 = [p] \<and> v)"
      using f(3) Ok unfolding L0_def by auto
    have obs: "observers self' = map (logged (L0 @ L) []) (observers self)"
      unfolding L(1) o1 by (simp add: o_def)
    have sub: "set (L0 @ L) \<subseteq> set (p # rest)"
      using l0 L(2) by auto
    have dist: "distinct (p # rest) \<longrightarrow> distinct (L0 @ L)"
      using l0 L(2) L(3) by auto
    have res: "\<forall>T. r = Ok T \<longrightarrow>
           (\<exists>T'. T = tr @ T' \<and> set (L0 @ L) \<subseteq> set T' \<and> set T' \<subseteq> set (p # rest)
                 \<and> (distinct (p # rest) \<longrightarrow> distinct T'))"
    proof (intro allI impI)
      fix T assume "r = Ok T"
      with L(4) obtain T' where
        T': "T = ?tr1 @ T'" "set L \<subseteq> set T'" "set T' \<subseteq> set rest"
          "distinct rest \<longrightarrow> distinct T'"
        by blast
      show "\<exists>T'. T = tr @ T' \<and> set (L0 @ L) \<subseteq> set T' \<and> set T' \<subseteq> set (p # rest)
                 \<and> (distinct (p # rest) \<longrightarrow> distinct T')"
      proof (cases v)
        case True
        then have "T = tr @ (p # T')" using T'(1) by simp
        moreover have "set (L0 @ L) \<subseteq> set (p # T')" using l0 T'(2) by auto
        moreover have "set (p # T') \<subseteq> set (p # rest)" using T'(3) by auto
        moreover have "distinct (p # rest) \<longrightarrow> distinct (p # T')" using T'(3) T'(4) by auto
        ultimately show ?thesis by blast
      next
        case False
        then have "T = tr @ T'" using T'(1) by simp
        moreover have "set (L0 @ L) \<subseteq> set T'" using l0 False T'(2) by auto
        moreover have "set T' \<subseteq> set (p # rest)" using T'(3) by auto
        moreover have "distinct (p # rest) \<longrightarrow> distinct T'" using T'(4) by auto
        ultimately show ?thesis by blast
      qed
    qed
    have wf: "wf_board_state (board_state self) \<longrightarrow>
         wf_board_state (board_state self')
         \<and> (set (p # rest) \<subseteq> dom (live_players (board_state self)) \<longrightarrow> (\<exists>T. r = Ok T))"
    proof (intro impI conjI)
      assume w: "wf_board_state (board_state self)"
      then have w1: "wf_board_state (board_state s1)" by (rule f(4))
      then show "wf_board_state (board_state self')" using ih by blast
      assume "set (p # rest) \<subseteq> dom (live_players (board_state self))"
      then have "set rest \<subseteq> dom (live_players (board_state s1))"
        using f(2) by (auto simp: dom_def)
      then show "\<exists>T. r = Ok T" using ih w1 by blast
    qed
    have "board (board_state self') = board (board_state self)"
      using ih f(1) by simp
    moreover have "\<forall>c. live_players (board_state self') c = None
          \<longleftrightarrow> live_players (board_state self) c = None"
      using ih f(2) by simp
    ultimately show ?thesis using obs sub dist res wf by blast
  next
    case (Error e)
    then have e: "r = Error e" "self' = s1" using Cons.prems m by simp_all
    have o: "observers s1 = map (logged [] []) (observers self)"
      using f(3) Error by simp
    have "wf_board_state (board_state self) \<longrightarrow>
         wf_board_state (board_state self')
         \<and> (set (p # rest) \<subseteq> dom (live_players (board_state self)) \<longrightarrow> (\<exists>T. r = Ok T))"
      using f(4) f(5) Error e by auto
    then show ?thesis
      using e f(1) f(2) o by (auto intro!: exI [of _ "[]"])
  next
    case (Raised x)
    then have e: "r = Raised x" "self' = s1" using Cons.prems m by simp_all
    have o: "observers s1 = map (logged [] []) (observers self)"
      using f(3) Raised by simp
    have "wf_board_state (board_state self) \<longrightarrow>
         wf_board_state (board_state self')
         \<and> (set (p # rest) \<subseteq> dom (live_players (board_state self)) \<longrightarrow> (\<exists>T. r = Ok T))"
      using f(4) f(5) Raised e by auto
    then show ?thesis
      using e f(1) f(2) o by (auto intro!: exI [of _ "[]"])
  qed
qed

subsection \<open>Removing players\<close>

lemma with_live_players_twice [simp]:
  "with_live_players (with_live_players s a) b = with_live_players s b"
  by (simp add: with_live_players_def with_change_def)

lemma with_live_players_same [simp]: "with_live_players s (live_players s) = s"
  by (simp add: with_live_players_def with_change_def)

lemma wf_board_state_restrict:
  "wf_board_state s \<Longrightarrow> wf_board_state (with_live_players s (live_players s |` A))"
  unfolding wf_board_state_def by (auto simp: restrict_map_def split: if_splits)

lemma remove_player_cases:
  "remove_player self player =
     (if live_players (board_state self) player = None then (Raised KeyError, self)
      else (Ok (), self\<lparr>board_state := with_live_players (board_state self)
                (live_players (board_state self) |` (- {player}))\<rparr>))"
proof -
  have "(live_players (board_state self))(player := None)
      = live_players (board_state self) |` (- {player})"
    by (auto simp: restrict_map_def)
  then show ?thesis by (simp add: remove_player_def)
qed

lemma remove_players_exact:
  "distinct T \<Longrightarrow> set T \<subseteq> dom (live_players (board_state self)) \<Longrightarrow>
   remove_players self T =
     (Ok (), self\<lparr>board_state := with_live_players (board_state self)
                      (live_players (board_state self) |` (- set T)),
                 observers := map (logged [] T) (observers self)\<rparr>)"
proof (induction T arbitrary: self)
  case Nil
  then show ?case by simp
next
  case (Cons p rest)
  let ?s = "board_state self"
  let ?self1 = "notify_exited_board
      (self\<lparr>board_state := with_live_players ?s (live_players ?s |` (- {p}))\<rparr>) p"
  obtain pv where lp: "live_players ?s p = Some pv" using Cons.prems(2) by auto
  have d: "distinct rest" using Cons.prems(1) by simp
  have sub: "set rest \<subseteq> dom (live_players (board_state ?self1))"
    using Cons.prems by (auto simp: restrict_map_def)
  have r: "(live_players ?s |` (- {p})) |` (- set rest) = live_players ?s |` (- set (p # rest))"
    by (auto simp: restrict_map_def)
  have "remove_players self (p # rest) = remove_players ?self1 rest"
    using lp by (simp add: remove_player_cases)
  also have "\<dots> = (Ok (), ?self1\<lparr>board_state := with_live_players (board_state ?self1)
                      (live_players (board_state ?self1) |` (- set rest)),
                 observers := map (logged [] rest) (observers ?self1)\<rparr>)"
    using d sub by (rule Cons.IH)
  also have "\<dots> = (Ok (), self\<lparr>board_state := with_live_players ?s
                      (live_players ?s |` (- set (p # rest))),
                 observers := map (logged [] (p # rest)) (observers self)\<rparr>)"
    using r by (simp add: o_def)
  finally show ?case .
qed

lemma remove_looped_players_exact:
  "distinct T \<Longrightarrow> set T \<subseteq> dom (live_players (board_state self)) \<Longrightarrow>
   remove_looped_players self T =
     (Ok (), self\<lparr>board_state := with_live_players (board_state self)
                      (live_players (board_state self) |` (- set T))\<rparr>)"
proof (induction T arbitrary: self)
  case Nil
  then show ?case by simp
next
  case (Cons p rest)
  let ?s = "board_state self"
  let ?self1 = "self\<lparr>board_state := with_live_players ?s (live_players ?s |` (- {p}))\<rparr>"
  obtain pv where lp: "live_players ?s p = Some pv" using Cons.prems(2) by auto
  have d: "distinct rest" using Cons.prems(1) by simp
  have sub: "set rest \<subseteq> dom (live_players (board_state ?self1))"
    using Cons.prems by (auto simp: restrict_map_def)
  have r: "(live_players ?s |` (- {p})) |` (- set rest) = live_players ?s |` (- set (p # rest))"
    by (auto simp: restrict_map_def)
  have "remove_looped_players self (p # rest) = remove_looped_players ?self1 rest"
    using lp by (simp add: remove_player_cases)
  also have "\<dots> = (Ok (), ?self1\<lparr>board_state := with_live_players (board_state ?self1)
                      (live_players (board_state ?self1) |` (- set rest))\<rparr>)"
    using d sub by (rule Cons.IH)
  also have "\<dots> = (Ok (), self\<lparr>board_state := with_live_players ?s
                      (live_players ?s |` (- set (p # rest)))\<rparr>)"
    using r by simp
  finally show ?case .
qed

text \<open>Without any assumption, removing players neither adds a player nor touches a tile.\<close>

lemma remove_players_frame:
  "remove_players self T = (r, self') \<Longrightarrow>
     board (board_state self') = board (board_state self)
   \<and> (\<forall>c. live_players (board_state self) c = None
          \<longrightarrow> live_players (board_state self') c = None)"
proof (induction T arbitrary: self)
  case Nil
  then show ?case by simp
next
  case (Cons p rest)
  show ?case
  proof (cases "live_players (board_state self) p = None")
    case True
    then show ?thesis using Cons.prems by (simp add: remove_player_cases)
  next
    case False
    then obtain pv where "live_players (board_state self) p = Some pv" by auto
    then have "remove_players (notify_exited_board
        (self\<lparr>board_state := with_live_players (board_state self)
            (live_players (board_state self) |` (- {p}))\<rparr>) p) rest = (r, self')"
      using Cons.prems by (simp add: remove_player_cases)
    from Cons.IH [OF this] show ?thesis by (auto simp: restrict_map_def)
  qed
qed

lemma remove_looped_players_frame:
  "remove_looped_players self T = (r, self') \<Longrightarrow>
     board (board_state self') = board (board_state self)
   \<and> observers self' = observers self
   \<and> (\<forall>c. live_players (board_state self) c = None
          \<longrightarrow> live_players (board_state self') c = None)"
proof (induction T arbitrary: self)
  case Nil
  then show ?case by simp
next
  case (Cons p rest)
  show ?case
  proof (cases "live_players (board_state self) p = None")
    case True
    then show ?thesis using Cons.prems by (simp add: remove_player_cases)
  next
    case False
    then obtain pv where "live_players (board_state self) p = Some pv" by auto
    then have "remove_looped_players
        (self\<lparr>board_state := with_live_players (board_state self)
            (live_players (board_state self) |` (- {p}))\<rparr>) rest = (r, self')"
      using Cons.prems by (simp add: remove_player_cases)
    from Cons.IH [OF this] show ?thesis by (auto simp: restrict_map_def)
  qed
qed

subsection \<open>Moving all players\<close>

lemma pmap_keysD:
  "pmap_keys keys_of \<Longrightarrow> distinct (keys_of m)"
  "pmap_keys keys_of \<Longrightarrow> set (keys_of m) = dom m"
  unfolding pmap_keys_def by blast+

lemma BoardState_eq_with_live_players:
  "board s1 = board s \<Longrightarrow> s1 = with_live_players s (live_players s1)"
  by (simp add: with_live_players_def with_change_def)

lemma move_all_players_frame:
  assumes "move_all_players_along_paths keys_of self = (r, self')"
  shows "board (board_state self') = board (board_state self)"
    and "\<And>c. live_players (board_state self) c = None
            \<Longrightarrow> live_players (board_state self') c = None"
proof -
  obtain r1 s1 where m: "move_players self (keys_of (live_players (board_state self))) []
      = (r1, s1)"
    by (cases "move_players self (keys_of (live_players (board_state self))) []")
  note f = move_players_frame [OF m]
  have "board (board_state self') = board (board_state self)
      \<and> (\<forall>c. live_players (board_state self) c = None
            \<longrightarrow> live_players (board_state self') c = None)"
  proof (cases r1)
    case (Ok T)
    then have "remove_players s1 T = (r, self')"
      using assms m by (simp add: move_all_players_along_paths_def)
    from remove_players_frame [OF this] f show ?thesis by simp
  next
    case (Error e)
    then have "self' = s1" using assms m by (simp add: move_all_players_along_paths_def)
    then show ?thesis using f by simp
  next
    case (Raised x)
    then have "self' = s1" using assms m by (simp add: move_all_players_along_paths_def)
    then show ?thesis using f by simp
  qed
  then show "board (board_state self') = board (board_state self)"
    and "\<And>c. live_players (board_state self) c = None
            \<Longrightarrow> live_players (board_state self') c = None"
    by blast+
qed

lemma move_all_players_wf:
  assumes "pmap_keys keys_of" and "wf_board_state (board_state self)"
  obtains L T lp1 where
    "move_all_players_along_paths keys_of self =
       (Ok (), self\<lparr>board_state := with_live_players (board_state self) (lp1 |` (- set T)),
                   observers := map (logged L T) (observers self)\<rparr>)"
    and "distinct L" and "set L \<subseteq> set T"
    and "set T \<subseteq> dom (live_players (board_state self))"
    and "dom lp1 = dom (live_players (board_state self))"
    and "wf_board_state (with_live_players (board_state self) lp1)"
proof -
  let ?s = "board_state self"
  let ?ps = "keys_of (live_players ?s)"
  have dp: "distinct ?ps" and sp: "set ?ps = dom (live_players ?s)"
    using assms(1) by (simp_all add: pmap_keysD)
  obtain r1 s1 where m: "move_players self ?ps [] = (r1, s1)"
    by (cases "move_players self ?ps []")
  note f = move_players_frame [OF m]
  from f assms(2) sp obtain T0 where r1: "r1 = Ok T0" by auto
  from f obtain L where
    L: "observers s1 = map (logged L []) (observers self)" "set L \<subseteq> set ?ps"
      "distinct ?ps \<longrightarrow> distinct L"
      "\<forall>T. r1 = Ok T \<longrightarrow> (\<exists>T'. T = [] @ T' \<and> set L \<subseteq> set T' \<and> set T' \<subseteq> set ?ps
          \<and> (distinct ?ps \<longrightarrow> distinct T'))"
    by blast
  from L(4) r1 have T: "set L \<subseteq> set T0" "set T0 \<subseteq> set ?ps" "distinct T0"
    using dp by auto
  have b1: "board (board_state s1) = board ?s" using f by blast
  have l1: "\<forall>c. live_players (board_state s1) c = None \<longleftrightarrow> live_players ?s c = None"
    using f by blast
  have d1: "dom (live_players (board_state s1)) = dom (live_players ?s)"
    using l1 by (auto simp: dom_def)
  have w1: "wf_board_state (board_state s1)" using f assms(2) by blast
  have e1: "board_state s1 = with_live_players ?s (live_players (board_state s1))"
    using b1 by (rule BoardState_eq_with_live_players)
  have s1: "s1 = self\<lparr>board_state := board_state s1, observers := observers s1\<rparr>"
    by simp
  have sub: "set T0 \<subseteq> dom (live_players (board_state s1))"
    using T(2) sp d1 by simp
  have "move_all_players_along_paths keys_of self = remove_players s1 T0"
    using m r1 by (simp add: move_all_players_along_paths_def)
  also have "\<dots> = (Ok (), s1\<lparr>board_state := with_live_players (board_state s1)
                      (live_players (board_state s1) |` (- set T0)),
                 observers := map (logged [] T0) (observers s1)\<rparr>)"
    using T(3) sub by (rule remove_players_exact)
  also have "\<dots> = (Ok (), self\<lparr>board_state := with_live_players ?s
                      (live_players (board_state s1) |` (- set T0)),
                   observers := map (logged L T0) (observers self)\<rparr>)"
    apply (subst s1)
    apply (subst (1 2) e1)
    apply (simp add: L(1) o_def)
    done
  finally have eq: "move_all_players_along_paths keys_of self =
      (Ok (), self\<lparr>board_state := with_live_players ?s
                      (live_players (board_state s1) |` (- set T0)),
                   observers := map (logged L T0) (observers self)\<rparr>)" .
  show ?thesis
    using that [OF eq] L(3) dp T(1) T(2) sp d1 w1 e1 by simp
qed

subsection \<open>Intermediate moves\<close>

lemma atomic_Ok:
  "func self = (Ok u, self') \<Longrightarrow> atomic func self = (Ok u, self')"
  by (simp add: atomic_def)

lemma atomic_Raised:
  "func self = (Raised x, self') \<Longrightarrow> atomic func self = (Raised x, self')"
  by (simp add: atomic_def)

lemma atomic_Error_same:
  "func self = (Error e, self) \<Longrightarrow> atomic func self = (Error e, self)"
  by (simp add: atomic_def)

lemma calculate_adjacent_live:
  "calculate_adjacent_position_of_player s c = Ok r \<Longrightarrow> live_players s c \<noteq> None"
  by (auto simp: calculate_adjacent_position_of_player_def split: if_splits)

lemma wf_board_state_with_tile:
  "wf_board_state s \<Longrightarrow> valid_tile t \<Longrightarrow> wf_board_state (with_tile s t p)"
  unfolding wf_board_state_def by auto

lemma intermediate_move_rejected:
  assumes "calculate_adjacent_position_of_player (board_state self) (m_player move) = Ok r"
    and "r = None \<or> (\<exists>p. r = Some p \<and> get_tile (board_state self) p \<noteq> None)"
  shows "\<exists>e. intermediate_move keys_of self move = (Error e, self)"
proof -
  have lp: "live_players (board_state self) (m_player move) \<noteq> None"
    using assms(1) by (rule calculate_adjacent_live)
  have "\<exists>e. intermediate_move_body keys_of move self = (Error e, self)"
    using assms lp
    by (auto simp: intermediate_move_body_def validate_intermediate_move_def)
  then show ?thesis
    unfolding intermediate_move_def by (auto dest: atomic_Error_same)
qed

lemma intermediate_move_not_live:
  assumes "live_players (board_state self) (m_player move) = None"
  shows "intermediate_move keys_of self move = (Error (PlayerNotAlive (m_player move)), self)"
proof -
  have "intermediate_move_body keys_of move self = (Error (PlayerNotAlive (m_player move)), self)"
    using assms by (simp add: intermediate_move_body_def validate_intermediate_move_def)
  then show ?thesis
    unfolding intermediate_move_def by (rule atomic_Error_same)
qed

lemma intermediate_move_ok:
  assumes k: "pmap_keys keys_of" and wf: "wf_board_state (board_state self)"
    and vt: "valid_tile (m_tile move)"
    and adj: "calculate_adjacent_position_of_player (board_state self) (m_player move)
        = Ok (Some p)"
    and emp: "get_tile (board_state self) p = None"
  obtains L X s1 where
    "intermediate_move keys_of self move =
       (Ok (), self\<lparr>board_state := s1, observers := map (logged L X) (observers self)\<rparr>)"
    and "distinct L" and "set L \<subseteq> dom (live_players (board_state self))"
    and "wf_board_state s1"
    and "L \<noteq> [] \<Longrightarrow> s1 = with_live_players (board_state self)
            (live_players (board_state self) |` (- set L))"
    and "L = [] \<Longrightarrow> board s1 = (board (board_state self))(p \<mapsto> m_tile move)"
    and "dom (live_players s1) \<subseteq> dom (live_players (board_state self))"
proof -
  let ?s = "board_state self"
  let ?obs = "observers self"
  let ?s2 = "with_tile ?s (m_tile move) p"
  let ?self2 = "self\<lparr>observers := ?obs @ [LoggingObserver_init], board_state := ?s2\<rparr>"
  have lp: "live_players ?s (m_player move) \<noteq> None"
    using adj by (rule calculate_adjacent_live)
  have wf2: "wf_board_state (board_state ?self2)"
    using wf vt by (simp add: wf_board_state_with_tile)
  obtain L T lp1 where
    mv: "move_all_players_along_paths keys_of ?self2 =
       (Ok (), ?self2\<lparr>board_state := with_live_players (board_state ?self2) (lp1 |` (- set T)),
                   observers := map (logged L T) (observers ?self2)\<rparr>)"
    and dL: "distinct L" and LT: "set L \<subseteq> set T"
    and Tsub: "set T \<subseteq> dom (live_players (board_state ?self2))"
    and d1: "dom lp1 = dom (live_players (board_state ?self2))"
    and w1: "wf_board_state (with_live_players (board_state ?self2) lp1)"
    using move_all_players_wf [OF k wf2] by blast
  let ?self3 = "self\<lparr>board_state := with_live_players ?s2 (lp1 |` (- set T)),
                   observers := map (logged L T) (?obs @ [LoggingObserver_init])\<rparr>"
  have mv': "move_all_players_along_paths keys_of ?self2 = (Ok (), ?self3)"
    using mv by simp
  have el: "entered_loop LoggingObserver_init = []"
    by (simp add: LoggingObserver_init_def)
  have bl3: "butlast (observers ?self3) = map (logged L T) ?obs"
    by (simp add: butlast_append)
  have Ldom: "set L \<subseteq> dom (live_players ?s)"
    using LT Tsub by auto
  show ?thesis
  proof (cases "L = []")
    case True
    let ?s1 = "with_live_players ?s2 (lp1 |` (- set T))"
    have body: "intermediate_move_body keys_of move self =
        (Ok (), self\<lparr>board_state := ?s1, observers := map (logged L T) ?obs\<rparr>)"
      using lp adj emp True
      by (simp add: intermediate_move_body_def validate_intermediate_move_def Let_def
          add_observer_def mv el butlast_append)
    have eq: "intermediate_move keys_of self move =
        (Ok (), self\<lparr>board_state := ?s1, observers := map (logged L T) ?obs\<rparr>)"
      unfolding intermediate_move_def using body by (rule atomic_Ok)
    have w: "wf_board_state ?s1"
      using wf_board_state_restrict [OF w1, of "- set T"] by simp
    have dsub: "dom (live_players ?s1) \<subseteq> dom (live_players ?s)"
      using d1 by (auto simp: restrict_map_def split: if_splits)
    show ?thesis
      using that [OF eq dL Ldom w _ _ dsub] True by simp
  next
    case False
    let ?s1 = "with_live_players ?s (live_players ?s |` (- set L))"
    have rl: "remove_looped_players (?self3\<lparr>board_state := ?s\<rparr>) L =
        (Ok (), (?self3\<lparr>board_state := ?s\<rparr>)\<lparr>board_state := ?s1\<rparr>)"
      using remove_looped_players_exact [of L "?self3\<lparr>board_state := ?s\<rparr>"] dL Ldom by simp
    have body: "intermediate_move_body keys_of move self =
        (Ok (), self\<lparr>board_state := ?s1, observers := map (logged L T) ?obs\<rparr>)"
      using lp adj emp False
      by (simp add: intermediate_move_body_def validate_intermediate_move_def Let_def
          add_observer_def mv el rl [simplified] butlast_append)
    have eq: "intermediate_move keys_of self move =
        (Ok (), self\<lparr>board_state := ?s1, observers := map (logged L T) ?obs\<rparr>)"
      unfolding intermediate_move_def using body by (rule atomic_Ok)
    have w: "wf_board_state ?s1" using wf by (rule wf_board_state_restrict)
    have dsub: "dom (live_players ?s1) \<subseteq> dom (live_players ?s)"
      by (auto simp: restrict_map_def split: if_splits)
    show ?thesis
      using that [OF eq dL Ldom w _ _ dsub] False by simp
  qed
qed

subsection \<open>Termination of the walk\<close>

lemma finite_grid_pos_ports: "finite grid_pos_ports"
  unfolding grid_pos_ports_def by (intro finite_imageI finite_cartesian_product) simp_all

lemma card_grid_pos_ports: "card grid_pos_ports = 800"
proof -
  have inj: "inj_on (\<lambda>(x, y, q). (BoardPosition x y, q)) ({0..9} \<times> {0..9} \<times> {..<8::nat})"
    by (auto simp: inj_on_def)
  have "card grid_pos_ports = card ({0..9::int} \<times> {0..9::int} \<times> {..<8::nat})"
    unfolding grid_pos_ports_def by (rule card_image [OF inj])
  also have "\<dots> = 800" by (simp add: card_cartesian_product)
  finally show ?thesis .
qed

lemma grid_pos_ports_iff: "(p, q) \<in> grid_pos_ports \<longleftrightarrow> valid_pos p \<and> q < 8"
proof
  assume "(p, q) \<in> grid_pos_ports"
  then show "valid_pos p \<and> q < 8"
    by (auto simp: grid_pos_ports_def valid_pos_iff)
next
  assume a: "valid_pos p \<and> q < 8"
  then have "(pos_x p, pos_y p, q) \<in> {0..9} \<times> {0..9} \<times> {..<8}"
    by (simp add: valid_pos_iff)
  then have "(\<lambda>(x, y, q). (BoardPosition x y, q)) (pos_x p, pos_y p, q) \<in> grid_pos_ports"
    unfolding grid_pos_ports_def by (rule imageI)
  then show "(p, q) \<in> grid_pos_ports" by simp
qed

lemma get_adjoining_port_Some_lt8: "get_adjoining_port q = Some q' \<Longrightarrow> q < 8"
  by (auto simp: get_adjoining_port_def split: if_splits)

lemma move_player_fuel_enough:
  "card (grid_pos_ports - seen) < n \<Longrightarrow>
   (\<And>p q. live_players (board_state self) player = Some (p, q) \<Longrightarrow> valid_pos p) \<Longrightarrow>
   move_player_fuel n self player seen = Some (move_player_loop self player seen)"
proof (induction n arbitrary: self seen)
  case 0
  then show ?case by simp
next
  case (Suc n)
  show ?case
  proof (cases rule: move_player_loop_cases [of self player seen])
    case (dead e)
    then show ?thesis by simp
  next
    case (seen p port)
    then show ?thesis by simp
  next
    case (edge p port)
    then show ?thesis by simp
  next
    case (empty p port np)
    then show ?thesis by simp
  next
    case (raised p port x)
    then show ?thesis by simp
  next
    case (step p port np t q q')
    let ?self1 = "self\<lparr>board_state := with_live_players (board_state self)
        ((live_players (board_state self))(player \<mapsto> (np, q')))\<rparr>"
    have "valid_pos p" using Suc.prems(2) step(1) by blast
    moreover have "port < 8" using step(5) by (rule get_adjoining_port_Some_lt8)
    ultimately have "(p, port) \<in> grid_pos_ports - seen"
      using step(2) by (simp add: grid_pos_ports_iff)
    then have "card (grid_pos_ports - insert (p, port) seen) < card (grid_pos_ports - seen)"
      using finite_grid_pos_ports by (metis Diff_insert card_Diff1_less finite_Diff)
    then have c: "card (grid_pos_ports - insert (p, port) seen) < n"
      using Suc.prems(1) by simp
    have v: "\<And>p' q''. live_players (board_state ?self1) player = Some (p', q'') \<Longrightarrow> valid_pos p'"
      using calculate_adjacent_Some_valid [OF step(3)] by simp
    have "move_player_fuel n ?self1 player (insert (p, port) seen)
        = Some (move_player_loop ?self1 player (insert (p, port) seen))"
      using c v by (rule Suc.IH)
    then show ?thesis using step(7) step(8) by simp
  qed
qed

text \<open>
  C10. For every board and every live player whose position is a position of the 10 x 10
  grid, the loop of \<open>_move_player_along_path\<close> returns: run with a bound on the number of
  iterations, it returns the result of the unbounded loop for every bound above the number
  of (position, port) pairs of the grid, which is 100 times 8. Every iteration that does
  not return adds a pair of the grid that was not yet in \<open>seen_pos_port\<close>.
\<close>

theorem move_player_along_path_terminates:
  assumes "live_players (board_state self) player = Some (p, q)" and "valid_pos p"
  shows "card grid_pos_ports = 800
    \<and> (\<forall>n > card grid_pos_ports.
          move_player_fuel n self player {} = Some (move_player_along_path self player))"
proof -
  have "move_player_fuel n self player {} = Some (move_player_loop self player {})"
    if "card (grid_pos_ports - {}) < n" for n
    using that by (rule move_player_fuel_enough) (use assms in auto)
  then show ?thesis
    unfolding move_player_along_path_def using card_grid_pos_ports by simp
qed

theorem move_player_along_path_terminates_witness:
  "live_players (board_state
      \<lparr>board_state = \<lparr>board = [BoardPosition 1 0 \<mapsto> [(0, 1), (2, 3), (4, 5), (6, 7)]],
                      live_players = [White \<mapsto> (BoardPosition 0 0, 2)]\<rparr>,
       observers = []\<rparr>) White = Some (BoardPosition 0 0, 2)
   \<and> valid_pos (BoardPosition 0 0)
   \<and> move_player_fuel 801
        \<lparr>board_state = \<lparr>board = [BoardPosition 1 0 \<mapsto> [(0, 1), (2, 3), (4, 5), (6, 7)]],
                        live_players = [White \<mapsto> (BoardPosition 0 0, 2)]\<rparr>,
         observers = []\<rparr> White {}
      = Some (Ok False,
          \<lparr>board_state = \<lparr>board = [BoardPosition 1 0 \<mapsto> [(0, 1), (2, 3), (4, 5), (6, 7)]],
                          live_players = [White \<mapsto> (BoardPosition 1 0, 6)]\<rparr>,
           observers = []\<rparr>)"
proof -
  let ?B = "\<lparr>board_state = \<lparr>board = [BoardPosition 1 0 \<mapsto> [(0, 1), (2, 3), (4, 5), (6, 7)]],
                      live_players = [White \<mapsto> (BoardPosition 0 0, 2)]\<rparr>,
       observers = []\<rparr>"
  have a: "live_players (board_state ?B) White = Some (BoardPosition 0 0, 2)" by simp
  have b: "valid_pos (BoardPosition 0 0)" by (simp add: valid_pos_def BoardPosition_init_def)
  have c: "move_player_along_path ?B White
      = (Ok False,
          \<lparr>board_state = \<lparr>board = [BoardPosition 1 0 \<mapsto> [(0, 1), (2, 3), (4, 5), (6, 7)]],
                          live_players = [White \<mapsto> (BoardPosition 1 0, 6)]\<rparr>,
           observers = []\<rparr>)"
    by (simp add: move_player_along_path_def move_player_loop.simps get_position_of_player_def
        calculate_adjacent_position_of_player_def new_position_def BoardPosition_init_def
        get_tile_def get_adjoining_port_def with_live_players_def with_change_def)
  show ?thesis
    using a b c move_player_along_path_terminates [OF a b] by simp
qed

section \<open>Properties of the referee\<close>

subsection \<open>Setting up a referee\<close>

lemma card_set_eq_length_iff: "card (set xs) = length xs \<longleftrightarrow> distinct xs"
  using card_distinct distinct_card by blast

lemma set_players_cases:
  "set_players self ps =
     (if players self \<noteq> [] then (Error PlayersAlreadySet, self)
      else if length ps < 3 \<or> length ps > 5 then (Error (WrongPlayerCount (length ps)), self)
      else if \<not> distinct (map pl_ident ps) then (Error DuplicatePlayers, self)
      else (Ok (take (length ps) AllColors),
            self\<lparr>players := zip (take (length ps) AllColors) ps\<rparr>))"
  unfolding set_players_def Let_def
  using card_set_eq_length_iff [of "map pl_ident ps"] by simp

lemma run_game_missing:
  "players self = [] \<or> rule_checker self = None \<or> tile_iterator self = None \<Longrightarrow>
   run_game n keys_of self =
     Some (Error (if players self = [] then MustAddPlayers
                  else if rule_checker self = None then MustAddRuleChecker
                  else MustAddTileIterator), self)"
  by (auto simp: run_game_def)

text \<open>
  C9 (amended). \<open>set_players\<close> returns an error result exactly when the roster has already
  been set, or has fewer than three or more than five players, or names the same player
  object twice; it then leaves the referee as it was. Otherwise it assigns the first
  colours of \<open>AllColors\<close> to the players in order, and every later call of \<open>set_players\<close> is
  an error: the roster can be set once. \<open>set_rule_checker\<close> and \<open>set_tile_iterator\<close>
  have no such guard: whatever the referee held, after the call it holds the new object.
  \<open>run_game\<close> returns an error result, with the referee unchanged, for every bound on the
  number of rounds, when the roster, the rule checker or the tile iterator is missing.
\<close>

theorem referee_setup_errors:
  "((\<exists>e. fst (set_players self ps) = Error e) \<longleftrightarrow>
       players self \<noteq> [] \<or> length ps < 3 \<or> length ps > 5 \<or> \<not> distinct (map pl_ident ps))
   \<and> ((\<exists>e. fst (set_players self ps) = Error e) \<longrightarrow> snd (set_players self ps) = self)
   \<and> (\<not> (\<exists>e. fst (set_players self ps) = Error e) \<longrightarrow>
         fst (set_players self ps) = Ok (take (length ps) AllColors)
         \<and> map fst (players (snd (set_players self ps))) = take (length ps) AllColors
         \<and> map snd (players (snd (set_players self ps))) = ps
         \<and> (\<forall>ps'. set_players (snd (set_players self ps)) ps'
                    = (Error PlayersAlreadySet, snd (set_players self ps))))
   \<and> rule_checker (set_rule_checker self rc) = Some rc
   \<and> tile_iterator (set_tile_iterator self ti) = Some ti
   \<and> (players self = [] \<or> rule_checker self = None \<or> tile_iterator self = None \<longrightarrow>
         (\<exists>e. run_game n keys_of self = Some (Error e, self)))"
proof -
  have len: "length (take (length ps) AllColors) = length ps" if "\<not> length ps > 5"
    using that by (simp add: AllColors_def)
  have a: "(\<exists>e. fst (set_players self ps) = Error e) \<longleftrightarrow>
       players self \<noteq> [] \<or> length ps < 3 \<or> length ps > 5 \<or> \<not> distinct (map pl_ident ps)"
    unfolding set_players_cases by simp
  have b: "(\<exists>e. fst (set_players self ps) = Error e) \<longrightarrow> snd (set_players self ps) = self"
    unfolding set_players_cases by simp
  have c: "fst (set_players self ps) = Ok (take (length ps) AllColors)
         \<and> map fst (players (snd (set_players self ps))) = take (length ps) AllColors
         \<and> map snd (players (snd (set_players self ps))) = ps
         \<and> (\<forall>ps'. set_players (snd (set_players self ps)) ps'
                    = (Error PlayersAlreadySet, snd (set_players self ps)))"
    if h: "\<not> (\<exists>e. fst (set_players self ps) = Error e)"
  proof -
    from h a have n: "players self = []" "\<not> length ps < 3" "\<not> length ps > 5"
      "distinct (map pl_ident ps)" by auto
    have l: "length (take (length ps) AllColors) = length ps" using len n(3) by simp
    have eq: "set_players self ps = (Ok (take (length ps) AllColors),
            self\<lparr>players := zip (take (length ps) AllColors) ps\<rparr>)"
      unfolding set_players_cases using n by simp
    have ne: "zip (take (length ps) AllColors) ps \<noteq> []"
      using n(2) l by (cases ps; cases "take (length ps) AllColors") auto
    show ?thesis
      unfolding eq using l ne by (simp add: set_players_cases [of "self\<lparr>players := _\<rparr>"])
  qed
  have d: "rule_checker (set_rule_checker self rc) = Some rc"
    by (simp add: set_rule_checker_def)
  have e: "tile_iterator (set_tile_iterator self ti) = Some ti"
    by (simp add: set_tile_iterator_def)
  have f: "players self = [] \<or> rule_checker self = None \<or> tile_iterator self = None \<longrightarrow>
         (\<exists>e. run_game n keys_of self = Some (Error e, self))"
    using run_game_missing [of self n keys_of] by blast
  show ?thesis using a b c d e f by blast
qed


theorem referee_setup_errors_witness:
  "fst (set_players Referee_init []) = Error (WrongPlayerCount 0)
   \<and> snd (set_players Referee_init []) = Referee_init
   \<and> run_game 0 keys_by_color Referee_init = Some (Error MustAddPlayers, Referee_init)
   \<and> fst (set_players Referee_init
        [\<lparr>pl_ident = 1, pl_set_color = (\<lambda>c. True), pl_set_players = (\<lambda>cs. True),
          pl_generate_first_move = (\<lambda>n ts s. Refusal), pl_generate_move = (\<lambda>n ts s. Refusal)\<rparr>,
         \<lparr>pl_ident = 2, pl_set_color = (\<lambda>c. True), pl_set_players = (\<lambda>cs. True),
          pl_generate_first_move = (\<lambda>n ts s. Refusal), pl_generate_move = (\<lambda>n ts s. Refusal)\<rparr>,
         \<lparr>pl_ident = 3, pl_set_color = (\<lambda>c. True), pl_set_players = (\<lambda>cs. True),
          pl_generate_first_move = (\<lambda>n ts s. Refusal), pl_generate_move = (\<lambda>n ts s. Refusal)\<rparr>])
     = Ok [White, Black, Red]
   \<and> fst (set_players (snd (set_players Referee_init
        [\<lparr>pl_ident = 1, pl_set_color = (\<lambda>c. True), pl_set_players = (\<lambda>cs. True),
          pl_generate_first_move = (\<lambda>n ts s. Refusal), pl_generate_move = (\<lambda>n ts s. Refusal)\<rparr>,
         \<lparr>pl_ident = 2, pl_set_color = (\<lambda>c. True), pl_set_players = (\<lambda>cs. True),
          pl_generate_first_move = (\<lambda>n ts s. Refusal), pl_generate_move = (\<lambda>n ts s. Refusal)\<rparr>,
         \<lparr>pl_ident = 3, pl_set_color = (\<lambda>c. True), pl_set_players = (\<lambda>cs. True),
          pl_generate_first_move = (\<lambda>n ts s. Refusal), pl_generate_move = (\<lambda>n ts s. Refusal)\<rparr>]))
        [])
     = Error PlayersAlreadySet"
proof -
  let ?P = "\<lambda>i. \<lparr>pl_ident = i, pl_set_color = (\<lambda>c. True), pl_set_players = (\<lambda>cs. True),
          pl_generate_first_move = (\<lambda>n ts s. Refusal), pl_generate_move = (\<lambda>n ts s. Refusal)\<rparr>"
  let ?ps = "[?P 1, ?P 2, ?P 3]"
  have e: "players Referee_init = []" by (simp add: Referee_init_def)
  note t0 = referee_setup_errors [of Referee_init "[]" "RuleChecker keys_by_color"
      "deterministic_tile_iterator []" 0 keys_by_color]
  note t3 = referee_setup_errors [of Referee_init ?ps "RuleChecker keys_by_color"
      "deterministic_tile_iterator []" 0 keys_by_color]
  have a: "fst (set_players Referee_init []) = Error (WrongPlayerCount 0)"
    by (simp add: set_players_def e)
  have b: "snd (set_players Referee_init []) = Referee_init"
    using t0 a by simp
  have c: "run_game 0 keys_by_color Referee_init = Some (Error MustAddPlayers, Referee_init)"
    using t0 e by (simp add: run_game_def)
  have n: "\<not> (\<exists>e. fst (set_players Referee_init ?ps) = Error e)"
    using t3 e by simp
  have d: "fst (set_players Referee_init ?ps) = Ok (take (length ?ps) AllColors)"
    and f: "\<forall>ps'. set_players (snd (set_players Referee_init ?ps)) ps'
                    = (Error PlayersAlreadySet, snd (set_players Referee_init ?ps))"
    using t3 n by blast+
  have d': "fst (set_players Referee_init ?ps) = Ok [White, Black, Red]"
    using d by (simp add: AllColors_def)
  have g: "fst (set_players (snd (set_players Referee_init ?ps)) []) = Error PlayersAlreadySet"
    using f by simp
  show ?thesis using a b c d' g by simp
qed

text \<open>
  A second tile iterator given to a referee that already has one replaces the first, and
  nothing reports an error.
\<close>

theorem tile_iterator_set_twice_counterexample:
  "tile_iterator (set_tile_iterator
       (set_tile_iterator Referee_init
          (deterministic_tile_iterator [[(0, 1), (2, 3), (4, 5), (6, 7)]]))
       (deterministic_tile_iterator [[(0, 7), (1, 2), (3, 4), (5, 6)]]))
     = Some (deterministic_tile_iterator [[(0, 7), (1, 2), (3, 4), (5, 6)]])
   \<and> deterministic_tile_iterator [[(0, 7), (1, 2), (3, 4), (5, 6)]]
       \<noteq> deterministic_tile_iterator [[(0, 1), (2, 3), (4, 5), (6, 7)]]
   \<and> rule_checker (set_rule_checker (set_rule_checker Referee_init (RuleChecker keys_by_color))
                      (RuleChecker keys_by_color))
     = Some (RuleChecker keys_by_color)"
proof -
  have "ti_items (deterministic_tile_iterator [[(0, 7), (1, 2), (3, 4), (5, 6)]]) 0
      \<noteq> ti_items (deterministic_tile_iterator [[(0, 1), (2, 3), (4, 5), (6, 7)]]) 0"
    by (simp add: deterministic_tile_iterator_def cycle_tiles_def)
  then have "deterministic_tile_iterator [[(0, 7), (1, 2), (3, 4), (5, 6)]]
       \<noteq> deterministic_tile_iterator [[(0, 1), (2, 3), (4, 5), (6, 7)]]"
    by metis
  then show ?thesis
    by (simp add: set_tile_iterator_def set_rule_checker_def)
qed

end
